theory Spec2Isabelle
  imports Complex_Main "HOL-Library.Word"
begin

section \<open>The client orchestration layer of wizwalker (\<^verbatim>\<open>wizwalker/client.py\<close>)\<close>

text \<open>
  \<^verbatim>\<open>Client\<close> drives one running game instance: it owns the process attachment and the
  hook handler, exposes lazily created views over remote memory, and turns commands
  (click, goto, teleport) into ordered calls of collaborators that live outside
  \<^verbatim>\<open>client.py\<close>: the hook subsystem, \<^verbatim>\<open>user32\<close>, \<^verbatim>\<open>asyncio\<close>, \<^verbatim>\<open>utils\<close>.

  The embedding keeps the methods as they are written and makes their effects explicit:
  \<^item> every call of a collaborator appends one \<open>event\<close> to the \<open>trace\<close> of the world;
  \<^item> what the collaborator answers is given by an environment \<open>env\<close> of oracles; each
    oracle sees the trace so far, so an answer may depend on everything that happened
    before (a process that has exited, a hook that is not active yet);
  \<^item> an exception is the left injection of the result, \<open>Inl e\<close>;
  \<^item> the attributes of \<^verbatim>\<open>self\<close> are a record that is passed in and returned.

  Python's \<^verbatim>\<open>float\<close> is read as \<open>real\<close> and Python's \<^verbatim>\<open>int\<close> as \<open>int\<close>: rounding,
  infinities and NaN are outside this development.
\<close>

subsection \<open>Values\<close>

type_synonym ref = nat

datatype error =
    RuntimeError string
  | ReadingEnumFailed
  | ZeroDivisionError
  | OtherError string

text \<open>
  \<^verbatim>\<open>utils.XYZ\<close>: three float coordinates. The class is declared in \<^verbatim>\<open>utils\<close>, which is
  not part of the sources at hand.
\<close>

datatype XYZ = XYZ (xyz_x: real) (xyz_y: real) (xyz_z: real)

text \<open>
  Modelled from the spec: \<^verbatim>\<open>XYZ.__sub__\<close> is declared in \<^verbatim>\<open>utils\<close>, which is missing.
  "Subtraction between two points yields a scalar distance (Euclidean norm), not a
  vector"; "Euclidean norm of the component-wise difference of two points (z included)".
\<close>

definition XYZ_sub :: "XYZ \<Rightarrow> XYZ \<Rightarrow> real" where
  "XYZ_sub a b =
     sqrt ((xyz_x a - xyz_x b)\<^sup>2 + (xyz_y a - xyz_y b)\<^sup>2 + (xyz_z a - xyz_z b)\<^sup>2)"

text \<open>
  Modelled from the spec: the enumeration \<^verbatim>\<open>DuelPhase\<close> is declared in \<^verbatim>\<open>memory\<close>, which
  is missing. It has "at least a terminal ended variant and one or more non-terminal
  variants"; the non-terminal variants are numbered here.
\<close>

datatype DuelPhase = ended | phase nat

text \<open>
  \<^verbatim>\<open>Keycode\<close> is declared in the package's top level, which is missing; \<^verbatim>\<open>client.py\<close>
  names only \<^verbatim>\<open>Keycode.W\<close>.
\<close>

datatype Keycode = W | Key nat

text \<open>An \<^verbatim>\<open>asyncio.Lock\<close>: all that matters of it here is whether it is held.\<close>

datatype Lock = Lock (locked: bool)

text \<open>
  The objects \<^verbatim>\<open>client.py\<close> constructs, each with the argument its constructor is given.
\<close>

datatype obj =
    Pymem
  | HookHandler ref
  | PlayerStats ref
  | PlayerActorBody ref
  | PlayerDuel ref
  | CurrentQuestPosition ref

subsection \<open>Events: the calls that leave \<^verbatim>\<open>client.py\<close>\<close>

datatype event =
    GetPidFromHandle int
  | OpenProcessFromId ref int
  | CheckIfProcessRunning ref
  | HookHandlerClose ref
  | ActivateAllHooks ref
  | WriteMousePosition ref int int
  | DuelPhaseRead ref
  | PositionRead ref
  | WriteYaw ref real
  | WritePosition ref XYZ
  | ClientToScreen int int int
  | SendMessageW int int int int
  | PostMessageW int int int int
  | Sleep real
  | TimedSendKey int Keycode real
  | InstanceLogin int string string
  | LockAcquire
  | LockRelease

subsection \<open>The environment\<close>

text \<open>
  One oracle for each collaborator. The first argument is the trace before the call.
  \<^verbatim>\<open>WIZARD_SPEED\<close> is a constant of \<^verbatim>\<open>constants\<close> and \<^verbatim>\<open>calculate_perfect_yaw\<close> a pure
  function of \<^verbatim>\<open>utils\<close>; both modules are missing, so both are parameters.
  \<open>'r\<close> is the type of what \<^verbatim>\<open>HookHandler.write_mouse_position\<close> returns.
\<close>

record 'r env =
  utils_get_pid_from_handle :: "event list \<Rightarrow> int \<Rightarrow> error + int"
  pymem_open_process_from_id :: "event list \<Rightarrow> ref \<Rightarrow> int \<Rightarrow> error + unit"
  utils_check_if_process_running :: "event list \<Rightarrow> ref \<Rightarrow> bool"
  HookHandler_close :: "event list \<Rightarrow> ref \<Rightarrow> error + unit"
  HookHandler_activate_all_hooks :: "event list \<Rightarrow> ref \<Rightarrow> error + unit"
  HookHandler_write_mouse_position :: "event list \<Rightarrow> ref \<Rightarrow> int \<Rightarrow> int \<Rightarrow> error + 'r"
  PlayerDuel_duel_phase :: "event list \<Rightarrow> ref \<Rightarrow> error + DuelPhase"
  PlayerActorBody_position :: "event list \<Rightarrow> ref \<Rightarrow> error + XYZ"
  PlayerActorBody_write_yaw :: "event list \<Rightarrow> ref \<Rightarrow> real \<Rightarrow> error + unit"
  PlayerActorBody_write_position :: "event list \<Rightarrow> ref \<Rightarrow> XYZ \<Rightarrow> error + unit"
  user32_ClientToScreen :: "event list \<Rightarrow> int \<Rightarrow> int \<times> int \<Rightarrow> int \<times> int \<times> int"
  user32_SendMessageW :: "event list \<Rightarrow> int \<Rightarrow> int \<Rightarrow> int \<Rightarrow> int \<Rightarrow> error + int"
  user32_PostMessageW :: "event list \<Rightarrow> int \<Rightarrow> int \<Rightarrow> int \<Rightarrow> int \<Rightarrow> error + int"
  asyncio_sleep :: "event list \<Rightarrow> real \<Rightarrow> error + unit"
  utils_timed_send_key :: "event list \<Rightarrow> int \<Rightarrow> Keycode \<Rightarrow> real \<Rightarrow> error + unit"
  utils_instance_login :: "event list \<Rightarrow> int \<Rightarrow> string \<Rightarrow> string \<Rightarrow> error + unit"
  utils_calculate_perfect_yaw :: "XYZ \<Rightarrow> XYZ \<Rightarrow> error + real"
  WIZARD_SPEED :: real

subsection \<open>The world and the attributes of a client\<close>

record world =
  trace :: "event list"
  next_ref :: ref
  objects :: "ref \<Rightarrow> obj option"

text \<open>
  The attributes \<^verbatim>\<open>__init__\<close> assigns, and one slot for each \<^verbatim>\<open>cached_property\<close>: the
  entry the property leaves in the instance's \<^verbatim>\<open>__dict__\<close> on first access.
\<close>

record client =
  window_handle :: int
  pymem :: ref
  hook_handler :: ref
  click_lock :: "Lock option"
  cached_process_id :: "int option"
  cached_stats :: "ref option"
  cached_body :: "ref option"
  cached_duel :: "ref option"
  cached_quest_position :: "ref option"

type_synonym 'a io = "client \<times> world \<Rightarrow> (error + 'a) \<times> client \<times> world"

definition return :: "'a \<Rightarrow> 'a io" where
  "return a = (\<lambda>s. (Inr a, s))"

definition raise :: "error \<Rightarrow> 'a io" where
  "raise e = (\<lambda>s. (Inl e, s))"

definition bind :: "'a io \<Rightarrow> ('a \<Rightarrow> 'b io) \<Rightarrow> 'b io" where
  "bind m f = (\<lambda>s. case m s of (Inl e, s') \<Rightarrow> (Inl e, s') | (Inr a, s') \<Rightarrow> f a s')"

text \<open>A call of a collaborator: the oracle answers from the trace so far, the event is logged.\<close>

definition call :: "event \<Rightarrow> (event list \<Rightarrow> error + 'a) \<Rightarrow> 'a io" where
  "call e f = (\<lambda>(c, w). (f (trace w), c, w\<lparr>trace := trace w @ [e]\<rparr>))"

text \<open>Constructing an object: a fresh reference.\<close>

definition new :: "obj \<Rightarrow> world \<Rightarrow> ref \<times> world" where
  "new ob w = (next_ref w, w\<lparr>next_ref := Suc (next_ref w), objects := (objects w)(next_ref w := Some ob)\<rparr>)"

definition construct :: "(client \<Rightarrow> obj) \<Rightarrow> ref io" where
  "construct mk = (\<lambda>(c, w). case new (mk c) w of (r, w') \<Rightarrow> (Inr r, c, w'))"

text \<open>
  \<^verbatim>\<open>functools.cached_property\<close>: the first access runs the method and stores what it
  returns in the instance; later accesses return the stored value. A method that raises
  stores nothing.
\<close>

definition cached_property ::
  "(client \<Rightarrow> 'a option) \<Rightarrow> ('a \<Rightarrow> client \<Rightarrow> client) \<Rightarrow> 'a io \<Rightarrow> 'a io" where
  "cached_property slot store method = (\<lambda>(c, w).
     case slot c of
       Some v \<Rightarrow> (Inr v, c, w)
     | None \<Rightarrow> (case method (c, w) of
         (Inl e, s') \<Rightarrow> (Inl e, s')
       | (Inr v, c', w') \<Rightarrow> (Inr v, store v c', w')))"

subsection \<open>The methods of \<^verbatim>\<open>Client\<close>\<close>

definition process_id :: "'r env \<Rightarrow> int io" where
  "process_id env =
     cached_property cached_process_id (\<lambda>v c. c\<lparr>cached_process_id := Some v\<rparr>)
       (\<lambda>(c, w). call (GetPidFromHandle (window_handle c))
                   (\<lambda>t. utils_get_pid_from_handle env t (window_handle c)) (c, w))"

definition stats :: "ref io" where
  "stats = cached_property cached_stats (\<lambda>v c. c\<lparr>cached_stats := Some v\<rparr>)
     (construct (\<lambda>c. PlayerStats (hook_handler c)))"

definition body :: "ref io" where
  "body = cached_property cached_body (\<lambda>v c. c\<lparr>cached_body := Some v\<rparr>)
     (construct (\<lambda>c. PlayerActorBody (hook_handler c)))"

definition duel :: "ref io" where
  "duel = cached_property cached_duel (\<lambda>v c. c\<lparr>cached_duel := Some v\<rparr>)
     (construct (\<lambda>c. PlayerDuel (hook_handler c)))"

definition quest_position :: "ref io" where
  "quest_position = cached_property cached_quest_position (\<lambda>v c. c\<lparr>cached_quest_position := Some v\<rparr>)
     (construct (\<lambda>c. CurrentQuestPosition (hook_handler c)))"

text \<open>
  \<^verbatim>\<open>__init__\<close>. Until \<^verbatim>\<open>self.hook_handler\<close> is assigned, the record holds the reference of
  the Pymem object in its place; nothing reads the attribute before the assignment.
\<close>

definition init :: "'r env \<Rightarrow> int \<Rightarrow> world \<Rightarrow> (error + client) \<times> world" where
  "init env hwnd w =
     (case new Pymem w of (pm, w1) \<Rightarrow>
      let self = \<lparr>window_handle = hwnd, pymem = pm, hook_handler = pm, click_lock = None,
                  cached_process_id = None, cached_stats = None, cached_body = None,
                  cached_duel = None, cached_quest_position = None\<rparr>
      in case bind (process_id env) (\<lambda>pid.
                call (OpenProcessFromId pm pid) (\<lambda>t. pymem_open_process_from_id env t pm pid))
              (self, w1) of
           (Inl e, c, w2) \<Rightarrow> (Inl e, w2)
         | (Inr u, c, w2) \<Rightarrow>
             (case new (HookHandler pm) w2 of (hh, w3) \<Rightarrow>
                (Inr (c\<lparr>hook_handler := hh, click_lock := None\<rparr>), w3)))"

definition is_running :: "'r env \<Rightarrow> bool io" where
  "is_running env = (\<lambda>(c, w).
     call (CheckIfProcessRunning (pymem c))
       (\<lambda>t. Inr (utils_check_if_process_running env t (pymem c))) (c, w))"

definition close :: "'r env \<Rightarrow> unit io" where
  "close env =
     bind (is_running env) (\<lambda>running.
       if \<not> running then return ()
       else (\<lambda>(c, w). call (HookHandlerClose (hook_handler c))
                        (\<lambda>t. HookHandler_close env t (hook_handler c)) (c, w)))"

definition in_battle :: "'r env \<Rightarrow> bool io" where
  "in_battle env = (\<lambda>s.
     case bind duel (\<lambda>d. call (DuelPhaseRead d) (\<lambda>t. PlayerDuel_duel_phase env t d)) s of
       (Inl ReadingEnumFailed, s') \<Rightarrow> (Inr False, s')
     | (Inl e, s') \<Rightarrow> (Inl e, s')
     | (Inr duel_phase, s') \<Rightarrow> (Inr (duel_phase \<noteq> ended), s'))"

definition activate_hooks :: "'r env \<Rightarrow> unit io" where
  "activate_hooks env = (\<lambda>(c, w).
     call (ActivateAllHooks (hook_handler c))
       (\<lambda>t. HookHandler_activate_all_hooks env t (hook_handler c)) (c, w))"

definition login :: "'r env \<Rightarrow> string \<Rightarrow> string \<Rightarrow> unit io" where
  "login env username password = (\<lambda>(c, w).
     call (InstanceLogin (window_handle c) username password)
       (\<lambda>t. utils_instance_login env t (window_handle c) username password) (c, w))"

definition send_key :: "'r env \<Rightarrow> Keycode \<Rightarrow> real \<Rightarrow> unit io" where
  "send_key env key seconds = (\<lambda>(c, w).
     call (TimedSendKey (window_handle c) key seconds)
       (\<lambda>t. utils_timed_send_key env t (window_handle c) key seconds) (c, w))"

text \<open>
  \<^verbatim>\<open>send_method\<close>, the local variable of \<^verbatim>\<open>click\<close> and \<^verbatim>\<open>set_mouse_position\<close>:
  \<^verbatim>\<open>user32.PostMessageW\<close> if \<^verbatim>\<open>use_post\<close>, else \<^verbatim>\<open>user32.SendMessageW\<close>.
\<close>

definition send_method :: "'r env \<Rightarrow> bool \<Rightarrow> int \<Rightarrow> int \<Rightarrow> int \<Rightarrow> int \<Rightarrow> int io" where
  "send_method env use_post hwnd msg wparam lparam =
     (if use_post
      then call (PostMessageW hwnd msg wparam lparam) (\<lambda>t. user32_PostMessageW env t hwnd msg wparam lparam)
      else call (SendMessageW hwnd msg wparam lparam) (\<lambda>t. user32_SendMessageW env t hwnd msg wparam lparam))"

text \<open>
  \<^verbatim>\<open>ctypes.wintypes.tagPOINT(x, y)\<close>: two C \<^verbatim>\<open>long\<close> fields, 32 bits wide on Windows; ctypes
  stores an integer in such a field without a range check, keeping its low 32 bits.
\<close>

definition tagPOINT :: "int \<Rightarrow> int \<Rightarrow> int \<times> int" where
  "tagPOINT x y = (sint (word_of_int x :: 32 word), sint (word_of_int y :: 32 word))"

definition set_mouse_position :: "'r env \<Rightarrow> int \<Rightarrow> int \<Rightarrow> bool \<Rightarrow> bool \<Rightarrow> 'r io" where
  "set_mouse_position env x y convert_from_client use_post =
     bind (if convert_from_client
           then (\<lambda>(c, w).
             let point = tagPOINT x y in
             bind (call (ClientToScreen (window_handle c) (fst point) (snd point))
                     (\<lambda>t. Inr (user32_ClientToScreen env t (window_handle c) point)))
               (\<lambda>(ret, point').
                  if ret = 0 then raise (RuntimeError ''Client to screen conversion failed'')
                  else return point') (c, w))
           else return (x, y))
       (\<lambda>(x', y').
          bind (\<lambda>(c, w). call (WriteMousePosition (hook_handler c) x' y')
                           (\<lambda>t. HookHandler_write_mouse_position env t (hook_handler c) x' y') (c, w))
            (\<lambda>res. bind (\<lambda>(c, w). send_method env use_post (window_handle c) 0x200 0 0 (c, w))
                      (\<lambda>_. return res)))"

text \<open>
  \<^verbatim>\<open>async with lock:\<close> acquires the lock, runs the body and releases the lock whether the
  body returned or raised; an exception of the body is raised again after the release.
  A lock that is held makes the caller wait: with nobody else running it waits for ever,
  which is the result \<open>None\<close>.
\<close>

definition async_with :: "'a io \<Rightarrow> client \<times> world \<Rightarrow> ((error + 'a) \<times> client \<times> world) option" where
  "async_with blk = (\<lambda>(c, w).
     case click_lock c of
       None \<Rightarrow> None
     | Some lk \<Rightarrow>
         if locked lk then None
         else (case blk (c\<lparr>click_lock := Some (Lock True)\<rparr>, w\<lparr>trace := trace w @ [LockAcquire]\<rparr>) of
                 (r, c', w') \<Rightarrow>
                   Some (r, c'\<lparr>click_lock := Some (Lock False)\<rparr>, w'\<lparr>trace := trace w' @ [LockRelease]\<rparr>)))"

text \<open>\<^verbatim>\<open>button_down_message\<close>, the local variable of \<^verbatim>\<open>click\<close>, as a function of \<^verbatim>\<open>right_click\<close>.\<close>

definition button_down_message :: "bool \<Rightarrow> int" where
  "button_down_message right_click = (if right_click then 0x204 else 0x201)"

text \<open>The block under \<^verbatim>\<open>async with self.click_lock\<close>.\<close>

definition click_body :: "'r env \<Rightarrow> int \<Rightarrow> int \<Rightarrow> bool \<Rightarrow> real \<Rightarrow> bool \<Rightarrow> unit io" where
  "click_body env x y right_click sleep_duration use_post =
     bind (set_mouse_position env x y True False) (\<lambda>_.
     bind (\<lambda>(c, w). send_method env use_post (window_handle c) (button_down_message right_click) 1 0 (c, w)) (\<lambda>_.
     bind (if sleep_duration > 0
           then call (Sleep sleep_duration) (\<lambda>t. asyncio_sleep env t sleep_duration)
           else return ()) (\<lambda>_.
     bind (\<lambda>(c, w). send_method env use_post (window_handle c) (button_down_message right_click + 1) 0 0 (c, w)) (\<lambda>_.
     return ()))))"

definition click ::
  "'r env \<Rightarrow> int \<Rightarrow> int \<Rightarrow> bool \<Rightarrow> real \<Rightarrow> bool \<Rightarrow> client \<times> world \<Rightarrow> ((error + unit) \<times> client \<times> world) option" where
  "click env x y right_click sleep_duration use_post = (\<lambda>(c, w).
     let c1 = (if click_lock c = None then c\<lparr>click_lock := Some (Lock False)\<rparr> else c)
     in async_with (click_body env x y right_click sleep_duration use_post) (c1, w))"

definition goto :: "'r env \<Rightarrow> real \<Rightarrow> real \<Rightarrow> real \<Rightarrow> unit io" where
  "goto env x y speed_multiplier =
     bind body (\<lambda>b.
     bind (call (PositionRead b) (\<lambda>t. PlayerActorBody_position env t b)) (\<lambda>current_xyz.
       let target_xyz = XYZ x y (xyz_z current_xyz);
           distance = XYZ_sub current_xyz target_xyz
       in if WIZARD_SPEED env * speed_multiplier = 0 then raise ZeroDivisionError
          else let move_seconds = distance / (WIZARD_SPEED env * speed_multiplier) in
            (case utils_calculate_perfect_yaw env current_xyz target_xyz of
               Inl e \<Rightarrow> raise e
             | Inr yaw \<Rightarrow>
                 bind body (\<lambda>b'.
                 bind (call (WriteYaw b' yaw) (\<lambda>t. PlayerActorBody_write_yaw env t b' yaw)) (\<lambda>_.
                 send_key env W move_seconds)))))"

definition teleport :: "'r env \<Rightarrow> XYZ \<Rightarrow> real option \<Rightarrow> unit io" where
  "teleport env xyz yaw =
     bind body (\<lambda>b.
     bind (call (WritePosition b xyz) (\<lambda>t. PlayerActorBody_write_position env t b xyz)) (\<lambda>_.
       case yaw of
         None \<Rightarrow> return ()
       | Some yaw' \<Rightarrow>
           bind body (\<lambda>b'. call (WriteYaw b' yaw') (\<lambda>t. PlayerActorBody_write_yaw env t b' yaw'))))"

subsection \<open>Overlapping calls of \<^verbatim>\<open>click\<close>\<close>

text \<open>
  Coroutines of one event loop run one at a time and can change over only where a
  coroutine awaits. A call of \<^verbatim>\<open>click\<close> is cut here into steps, each holding at most one call
  of a collaborator, so every stretch of code that runs between two awaits is a run of
  consecutive steps, and every order in which the event loop can run overlapping calls is
  a schedule of these steps. Lines 151 to 162 (choosing the message code and the delivery
  function, creating the lock when there is none) contain no await and are one step.

  \<open>pc\<close> is the place where a call stands; \<open>AtWrite\<close> and \<open>AtMove\<close> carry the local
  variables of \<^verbatim>\<open>set_mouse_position\<close>, \<open>AtRelease\<close> the exception that is to be raised again
  after the lock is released.
\<close>

datatype click_call =
  ClickCall (arg_x: int) (arg_y: int) (arg_right_click: bool) (arg_sleep_duration: real) (arg_use_post: bool)

datatype 'r pc =
    Entry
  | AwaitLock
  | AtConvert
  | AtWrite int int
  | AtMove 'r
  | AtDown
  | AtSleep
  | AtUp
  | AtRelease "error option"
  | Finished "error + unit"

definition resume :: "(error + 'a) \<times> client \<times> world \<Rightarrow> ('a \<Rightarrow> 'r pc) \<Rightarrow> 'r pc \<times> client \<times> world" where
  "resume m k = (case m of (Inl e, s) \<Rightarrow> (AtRelease (Some e), s) | (Inr v, s) \<Rightarrow> (k v, s))"

fun click_step :: "'r env \<Rightarrow> click_call \<Rightarrow> 'r pc \<Rightarrow> client \<times> world \<Rightarrow> 'r pc \<times> client \<times> world" where
  "click_step env a Entry (c, w) =
     (AwaitLock, (if click_lock c = None then c\<lparr>click_lock := Some (Lock False)\<rparr> else c), w)"
| "click_step env a AwaitLock (c, w) =
     (case click_lock c of
        None \<Rightarrow> (AwaitLock, c, w)
      | Some lk \<Rightarrow>
          if locked lk then (AwaitLock, c, w)
          else (AtConvert, c\<lparr>click_lock := Some (Lock True)\<rparr>, w\<lparr>trace := trace w @ [LockAcquire]\<rparr>))"
| "click_step env a AtConvert (c, w) =
     (let point = tagPOINT (arg_x a) (arg_y a) in
      resume (call (ClientToScreen (window_handle c) (fst point) (snd point))
                (\<lambda>t. Inr (user32_ClientToScreen env t (window_handle c) point)) (c, w))
        (\<lambda>(ret, x', y').
           if ret = 0 then AtRelease (Some (RuntimeError ''Client to screen conversion failed''))
           else AtWrite x' y'))"
| "click_step env a (AtWrite x' y') (c, w) =
     resume (call (WriteMousePosition (hook_handler c) x' y')
               (\<lambda>t. HookHandler_write_mouse_position env t (hook_handler c) x' y') (c, w))
       AtMove"
| "click_step env a (AtMove res) (c, w) =
     resume (send_method env False (window_handle c) 0x200 0 0 (c, w)) (\<lambda>_. AtDown)"
| "click_step env a AtDown (c, w) =
     resume (send_method env (arg_use_post a) (window_handle c)
               (button_down_message (arg_right_click a)) 1 0 (c, w))
       (\<lambda>_. AtSleep)"
| "click_step env a AtSleep (c, w) =
     (if arg_sleep_duration a > 0
      then resume (call (Sleep (arg_sleep_duration a))
                     (\<lambda>t. asyncio_sleep env t (arg_sleep_duration a)) (c, w))
             (\<lambda>_. AtUp)
      else (AtUp, c, w))"
| "click_step env a AtUp (c, w) =
     resume (send_method env (arg_use_post a) (window_handle c)
               (button_down_message (arg_right_click a) + 1) 0 0 (c, w))
       (\<lambda>_. AtRelease None)"
| "click_step env a (AtRelease exc) (c, w) =
     (Finished (case exc of None \<Rightarrow> Inr () | Some e \<Rightarrow> Inl e),
      c\<lparr>click_lock := Some (Lock False)\<rparr>, w\<lparr>trace := trace w @ [LockRelease]\<rparr>)"
| "click_step env a (Finished r) (c, w) = (Finished r, c, w)"

text \<open>One call running with nobody else: its steps one after the other.\<close>

definition task_step :: "'r env \<Rightarrow> click_call \<Rightarrow> 'r pc \<times> client \<times> world \<Rightarrow> 'r pc \<times> client \<times> world" where
  "task_step env a = (\<lambda>(p, s). click_step env a p s)"

text \<open>The events logged between two worlds.\<close>

definition issued :: "world \<Rightarrow> world \<Rightarrow> event list" where
  "issued w w' = drop (length (trace w)) (trace w')"

text \<open>
  Several calls on one client. A configuration holds the place of every call, the client,
  the world, and a log that repeats the trace with the number of the call that issued each
  event. A schedule names the call that takes the next step; a call that waits for the
  lock stays where it is.
\<close>

type_synonym 'r config = "'r pc list \<times> client \<times> world \<times> (nat \<times> event) list"

definition sched_step :: "'r env \<Rightarrow> click_call list \<Rightarrow> nat \<Rightarrow> 'r config \<Rightarrow> 'r config" where
  "sched_step env calls i = (\<lambda>(pcs, c, w, l).
     if i < length pcs \<and> i < length calls
     then (case click_step env (calls ! i) (pcs ! i) (c, w) of
             (p', c', w') \<Rightarrow> (pcs[i := p'], c', w', l @ map (Pair i) (issued w w')))
     else (pcs, c, w, l))"

primrec run :: "'r env \<Rightarrow> click_call list \<Rightarrow> nat list \<Rightarrow> 'r config \<Rightarrow> 'r config" where
  "run env calls [] cfg = cfg"
| "run env calls (i # sched) cfg = run env calls sched (sched_step env calls i cfg)"

definition start :: "click_call list \<Rightarrow> client \<Rightarrow> world \<Rightarrow> 'r config" where
  "start calls c w = (map (\<lambda>_. Entry) calls, c, w, [])"

text \<open>
  The events of call \<open>i\<close> are contiguous in a log: after the first event of \<open>i\<close> and the
  events of \<open>i\<close> that follow it directly, no event of \<open>i\<close> comes again.
\<close>

definition contiguous :: "nat \<Rightarrow> (nat \<times> event) list \<Rightarrow> bool" where
  "contiguous i l =
     (i \<notin> fst ` set (dropWhile (\<lambda>p. fst p = i) (dropWhile (\<lambda>p. fst p \<noteq> i) l)))"

text \<open>The button messages: the four codes \<^verbatim>\<open>click\<close> sends, by either delivery function.\<close>

fun is_button :: "event \<Rightarrow> bool" where
  "is_button (SendMessageW h m wp lp) = (m \<in> {0x201, 0x202, 0x204, 0x205})"
| "is_button (PostMessageW h m wp lp) = (m \<in> {0x201, 0x202, 0x204, 0x205})"
| "is_button _ = False"

text \<open>Calls of \<^verbatim>\<open>click\<close> one after the other, each started when the one before has returned.\<close>

fun clicks :: "'r env \<Rightarrow> click_call list \<Rightarrow> client \<times> world \<Rightarrow> ((error + unit) list \<times> client \<times> world) option" where
  "clicks env [] s = Some ([], s)"
| "clicks env (a # as) s =
     (case click env (arg_x a) (arg_y a) (arg_right_click a) (arg_sleep_duration a) (arg_use_post a) s of
        None \<Rightarrow> None
      | Some (r, s') \<Rightarrow> (case clicks env as s' of None \<Rightarrow> None | Some (rs, s'') \<Rightarrow> Some (r # rs, s'')))"

subsection \<open>Sequences of method calls\<close>

datatype api_call =
    Close
  | IsRunning
  | ProcessId
  | Stats
  | Body
  | Duel
  | QuestPosition
  | InBattle
  | ActivateHooks
  | Login string string
  | SendKey Keycode real
  | Click int int bool real bool
  | SetMousePosition int int bool bool
  | Goto real real real
  | Teleport XYZ "real option"

definition discard :: "(error + 'a) \<times> client \<times> world \<Rightarrow> (client \<times> world) option" where
  "discard m = Some (snd m)"

text \<open>
  The state a method call leaves, whether it returned or raised; \<open>None\<close> when the call
  never comes back.
\<close>

fun invoke :: "'r env \<Rightarrow> api_call \<Rightarrow> client \<times> world \<Rightarrow> (client \<times> world) option" where
  "invoke env Close s = discard (close env s)"
| "invoke env IsRunning s = discard (is_running env s)"
| "invoke env ProcessId s = discard (process_id env s)"
| "invoke env Stats s = discard (stats s)"
| "invoke env Body s = discard (body s)"
| "invoke env Duel s = discard (duel s)"
| "invoke env QuestPosition s = discard (quest_position s)"
| "invoke env InBattle s = discard (in_battle env s)"
| "invoke env ActivateHooks s = discard (activate_hooks env s)"
| "invoke env (Login u p) s = discard (login env u p s)"
| "invoke env (SendKey k d) s = discard (send_key env k d s)"
| "invoke env (Click x y rc d up) s = map_option snd (click env x y rc d up s)"
| "invoke env (SetMousePosition x y cv up) s = discard (set_mouse_position env x y cv up s)"
| "invoke env (Goto x y m) s = discard (goto env x y m s)"
| "invoke env (Teleport xyz yaw) s = discard (teleport env xyz yaw s)"

fun invoke_all :: "'r env \<Rightarrow> api_call list \<Rightarrow> client \<times> world \<Rightarrow> (client \<times> world) option" where
  "invoke_all env [] s = Some s"
| "invoke_all env (m # ms) s = (case invoke env m s of None \<Rightarrow> None | Some s' \<Rightarrow> invoke_all env ms s')"

subsection \<open>What method calls keep\<close>

text \<open>
  The four lazily created views: the property, its slot in the instance, the assignment to
  that slot, and the constructor the property calls on the hook handler.
\<close>

definition accessors ::
  "(ref io \<times> (client \<Rightarrow> ref option) \<times> (ref \<Rightarrow> client \<Rightarrow> client) \<times> (ref \<Rightarrow> obj)) list" where
  "accessors =
     [(stats, cached_stats, (\<lambda>v c. c\<lparr>cached_stats := Some v\<rparr>), PlayerStats),
      (body, cached_body, (\<lambda>v c. c\<lparr>cached_body := Some v\<rparr>), PlayerActorBody),
      (duel, cached_duel, (\<lambda>v c. c\<lparr>cached_duel := Some v\<rparr>), PlayerDuel),
      (quest_position, cached_quest_position, (\<lambda>v c. c\<lparr>cached_quest_position := Some v\<rparr>),
       CurrentQuestPosition)]"

text \<open>The views a client holds.\<close>

definition views :: "client \<Rightarrow> ref set" where
  "views c = set_option (cached_stats c) \<union> set_option (cached_body c)
           \<union> set_option (cached_duel c) \<union> set_option (cached_quest_position c)"

text \<open>
  What every method call keeps: the attributes set by \<^verbatim>\<open>__init__\<close>, a process id once it is
  stored, every view once it is stored, every object that exists; and what it may add: events,
  and views that are new objects built on the client's hook handler.
\<close>

definition slot_kept ::
  "(client \<Rightarrow> ref option) \<Rightarrow> (ref \<Rightarrow> obj) \<Rightarrow> client \<times> world \<Rightarrow> client \<times> world \<Rightarrow> bool" where
  "slot_kept slot kind s s' =
     (case slot (fst s) of
        Some r \<Rightarrow> slot (fst s') = Some r
      | None \<Rightarrow> (case slot (fst s') of
          None \<Rightarrow> True
        | Some r \<Rightarrow> next_ref (snd s) \<le> r \<and> r < next_ref (snd s')
                    \<and> objects (snd s') r = Some (kind (hook_handler (fst s)))))"

fun is_get_pid :: "event \<Rightarrow> bool" where
  "is_get_pid (GetPidFromHandle h) = True"
| "is_get_pid _ = False"

definition grows :: "client \<times> world \<Rightarrow> client \<times> world \<Rightarrow> bool" where
  "grows s s' =
     (window_handle (fst s') = window_handle (fst s)
      \<and> pymem (fst s') = pymem (fst s)
      \<and> hook_handler (fst s') = hook_handler (fst s)
      \<and> take (length (trace (snd s))) (trace (snd s')) = trace (snd s)
      \<and> (case cached_process_id (fst s) of
            None \<Rightarrow> True
          | Some p \<Rightarrow> cached_process_id (fst s') = Some p
                      \<and> list_all (\<lambda>e. \<not> is_get_pid e) (issued (snd s) (snd s')))
      \<and> next_ref (snd s) \<le> next_ref (snd s')
      \<and> list_all (\<lambda>r. objects (snd s') r = objects (snd s) r) [0..<next_ref (snd s)]
      \<and> slot_kept cached_stats PlayerStats s s'
      \<and> slot_kept cached_body PlayerActorBody s s'
      \<and> slot_kept cached_duel PlayerDuel s s'
      \<and> slot_kept cached_quest_position CurrentQuestPosition s s')"

definition steady :: "'a io \<Rightarrow> bool" where
  "steady m = (\<forall>s r s'. m s = (r, s') \<longrightarrow> grows s s')"

subsection \<open>Messages\<close>

text \<open>The event a call of \<^verbatim>\<open>send_method\<close> leaves in the trace.\<close>

definition sent :: "bool \<Rightarrow> int \<Rightarrow> int \<Rightarrow> int \<Rightarrow> int \<Rightarrow> event" where
  "sent use_post hwnd msg wparam lparam =
     (if use_post then PostMessageW hwnd msg wparam lparam else SendMessageW hwnd msg wparam lparam)"

subsection \<open>A sample environment\<close>

text \<open>
  An environment in which every collaborator answers and the process keeps running, the
  empty world, and the client that \<open>init\<close> builds there for window 7.
\<close>

definition env_ok :: "unit env" where
  "env_ok = \<lparr>
     utils_get_pid_from_handle = (\<lambda>t h. Inr 4242),
     pymem_open_process_from_id = (\<lambda>t pm pid. Inr ()),
     utils_check_if_process_running = (\<lambda>t pm. True),
     HookHandler_close = (\<lambda>t hh. Inr ()),
     HookHandler_activate_all_hooks = (\<lambda>t hh. Inr ()),
     HookHandler_write_mouse_position = (\<lambda>t hh x y. Inr ()),
     PlayerDuel_duel_phase = (\<lambda>t d. Inr (phase 2)),
     PlayerActorBody_position = (\<lambda>t b. Inr (XYZ 0 0 0)),
     PlayerActorBody_write_yaw = (\<lambda>t b yaw. Inr ()),
     PlayerActorBody_write_position = (\<lambda>t b xyz. Inr ()),
     user32_ClientToScreen = (\<lambda>t hwnd (x, y). (1, x + 100, y + 50)),
     user32_SendMessageW = (\<lambda>t hwnd msg wp lp. Inr 0),
     user32_PostMessageW = (\<lambda>t hwnd msg wp lp. Inr 1),
     asyncio_sleep = (\<lambda>t d. Inr ()),
     utils_timed_send_key = (\<lambda>t hwnd k s. Inr ()),
     utils_instance_login = (\<lambda>t hwnd u p. Inr ()),
     utils_calculate_perfect_yaw = (\<lambda>a b. Inr 0),
     WIZARD_SPEED = 580\<rparr>"

definition world0 :: world where
  "world0 = \<lparr>trace = [], next_ref = 0, objects = (\<lambda>_. None)\<rparr>"

definition client1 :: client where
  "client1 = \<lparr>window_handle = 7, pymem = 0, hook_handler = 1, click_lock = None,
     cached_process_id = Some 4242, cached_stats = None, cached_body = None,
     cached_duel = None, cached_quest_position = None\<rparr>"

definition world1 :: world where
  "world1 = \<lparr>trace = [GetPidFromHandle 7, OpenProcessFromId 0 4242], next_ref = 2,
     objects = (\<lambda>_. None)(0 := Some Pymem, 1 := Some (HookHandler 0))\<rparr>"

section \<open>Properties\<close>

subsection \<open>Lazily created accessors\<close>

lemma body_trace: "body (c, w) = (r, c1, w1) \<Longrightarrow> trace w1 = trace w"
  by (auto simp: body_def cached_property_def construct_def new_def split: option.splits)

lemma body_cached: "body (c, w) = (Inr b, c1, w1) \<Longrightarrow> body (c1, w2) = (Inr b, c1, w2)"
  by (auto simp: body_def cached_property_def construct_def new_def split: option.splits)

lemma duel_trace: "duel (c, w) = (r, c1, w1) \<Longrightarrow> trace w1 = trace w"
  by (auto simp: duel_def cached_property_def construct_def new_def split: option.splits)

subsection \<open>\<^verbatim>\<open>close\<close>\<close>

text \<open>
  C3, as the claim states it, fails. With a process that keeps running, the second of two
  calls of \<^verbatim>\<open>close\<close> in a row asks \<^verbatim>\<open>is_running\<close> again and calls \<^verbatim>\<open>hook_handler.close()\<close>
  again: the events of the second call are the same two as those of the first.
\<close>

theorem close_twice_counterexample:
  "issued (snd (snd (close env_ok (client1, world1))))
          (snd (snd (close env_ok (snd (close env_ok (client1, world1))))))
     = [CheckIfProcessRunning 0, HookHandlerClose 1]"
  by (simp add: close_def is_running_def bind_def call_def return_def env_ok_def
        client1_def world1_def issued_def)

text \<open>
  C3, amended. A call of \<^verbatim>\<open>close\<close> asks once whether the process runs. If it does not, the
  call makes no call of the hook subsystem and returns without an error. If it does, the
  call makes exactly one call of \<^verbatim>\<open>hook_handler.close()\<close> and ends as that call ends. The
  client is left as it was: nothing records that it has been closed.
\<close>

theorem close_calls:
  "close env (c, w) =
     (if utils_check_if_process_running env (trace w) (pymem c)
      then (HookHandler_close env (trace w @ [CheckIfProcessRunning (pymem c)]) (hook_handler c), c,
            w\<lparr>trace := trace w @ [CheckIfProcessRunning (pymem c), HookHandlerClose (hook_handler c)]\<rparr>)
      else (Inr (), c, w\<lparr>trace := trace w @ [CheckIfProcessRunning (pymem c)]\<rparr>))"
  by (simp add: close_def is_running_def bind_def call_def return_def)

theorem close_calls_witness:
  "close (env_ok\<lparr>utils_check_if_process_running := (\<lambda>t pm. False)\<rparr>) (client1, world1) =
     (Inr (), client1, world1\<lparr>trace := trace world1 @ [CheckIfProcessRunning 0]\<rparr>)
   \<and> close env_ok (client1, world1) =
     (Inr (), client1,
      world1\<lparr>trace := trace world1 @ [CheckIfProcessRunning 0, HookHandlerClose 1]\<rparr>)"
  using close_calls [of "env_ok\<lparr>utils_check_if_process_running := (\<lambda>t pm. False)\<rparr>" client1 world1]
        close_calls [of env_ok client1 world1]
  by (simp add: env_ok_def client1_def)

subsection \<open>\<^verbatim>\<open>in_battle\<close>\<close>

text \<open>
  C4. Let \<open>d\<close> be the duel view of the client. If reading the duel phase raises
  \<^verbatim>\<open>ReadingEnumFailed\<close>, \<^verbatim>\<open>in_battle\<close> returns \<^verbatim>\<open>False\<close> and raises nothing. If the read returns
  a phase, \<^verbatim>\<open>in_battle\<close> returns whether that phase differs from \<^verbatim>\<open>DuelPhase.ended\<close>: \<^verbatim>\<open>True\<close>
  for every other variant, \<^verbatim>\<open>False\<close> for \<^verbatim>\<open>ended\<close>. Any other exception of the read is passed
  on. In each case the read is the only call made.
\<close>

theorem in_battle_result:
  assumes "duel (c, w) = (Inr d, c1, w1)"
  shows "(PlayerDuel_duel_phase env (trace w) d = Inl ReadingEnumFailed \<longrightarrow>
            in_battle env (c, w) = (Inr False, c1, w1\<lparr>trace := trace w @ [DuelPhaseRead d]\<rparr>))
       \<and> (\<forall>n. PlayerDuel_duel_phase env (trace w) d = Inr (phase n) \<longrightarrow>
            in_battle env (c, w) = (Inr True, c1, w1\<lparr>trace := trace w @ [DuelPhaseRead d]\<rparr>))
       \<and> (PlayerDuel_duel_phase env (trace w) d = Inr ended \<longrightarrow>
            in_battle env (c, w) = (Inr False, c1, w1\<lparr>trace := trace w @ [DuelPhaseRead d]\<rparr>))
       \<and> (\<forall>e. PlayerDuel_duel_phase env (trace w) d = Inl e \<longrightarrow> e \<noteq> ReadingEnumFailed \<longrightarrow>
            in_battle env (c, w) = (Inl e, c1, w1\<lparr>trace := trace w @ [DuelPhaseRead d]\<rparr>))"
proof -
  have tr: "trace w1 = trace w"
    using assms by (rule duel_trace)
  show ?thesis
    using assms tr
    by (auto simp: in_battle_def bind_def call_def split: error.splits sum.splits)
qed

theorem in_battle_result_witness:
  "duel (client1, world1) =
     (Inr 2, client1\<lparr>cached_duel := Some 2\<rparr>,
      world1\<lparr>next_ref := 3, objects := (objects world1)(2 := Some (PlayerDuel 1))\<rparr>)
   \<and> fst (in_battle (env_ok\<lparr>PlayerDuel_duel_phase := (\<lambda>t d. Inl ReadingEnumFailed)\<rparr>)
            (client1, world1)) = Inr False
   \<and> fst (in_battle env_ok (client1, world1)) = Inr True
   \<and> fst (in_battle (env_ok\<lparr>PlayerDuel_duel_phase := (\<lambda>t d. Inr ended)\<rparr>)
            (client1, world1)) = Inr False
   \<and> fst (in_battle (env_ok\<lparr>PlayerDuel_duel_phase := (\<lambda>t d. Inl (RuntimeError ''hook not active''))\<rparr>)
            (client1, world1)) = Inl (RuntimeError ''hook not active'')"
proof -
  have d: "duel (client1, world1) =
     (Inr 2, client1\<lparr>cached_duel := Some 2\<rparr>,
      world1\<lparr>next_ref := 3, objects := (objects world1)(2 := Some (PlayerDuel 1))\<rparr>)"
    by (simp add: duel_def cached_property_def construct_def new_def client1_def world1_def)
  show ?thesis
    using d
      in_battle_result [OF d, of "env_ok\<lparr>PlayerDuel_duel_phase := (\<lambda>t d. Inl ReadingEnumFailed)\<rparr>"]
      in_battle_result [OF d, of env_ok]
      in_battle_result [OF d, of "env_ok\<lparr>PlayerDuel_duel_phase := (\<lambda>t d. Inr ended)\<rparr>"]
      in_battle_result [OF d, of "env_ok\<lparr>PlayerDuel_duel_phase := (\<lambda>t d. Inl (RuntimeError ''hook not active''))\<rparr>"]
    by (simp add: env_ok_def)
qed

subsection \<open>\<^verbatim>\<open>teleport\<close>\<close>

text \<open>
  C6. Let \<open>b\<close> be the body view of the client. \<^verbatim>\<open>teleport(xyz)\<close> without a yaw issues one
  call, the position write of \<open>xyz\<close> as it was given, and no yaw write. \<^verbatim>\<open>teleport(xyz, Y)\<close>
  issues, when the position write returns, two calls: the position write of \<open>xyz\<close>, then
  the yaw write of \<open>Y\<close> as it was given. No message, key or mouse event is among them.
\<close>

theorem teleport_writes:
  assumes "body (c, w) = (Inr b, c1, w1)"
  shows "teleport env xyz None (c, w) =
           (PlayerActorBody_write_position env (trace w) b xyz, c1,
            w1\<lparr>trace := trace w @ [WritePosition b xyz]\<rparr>)
       \<and> (PlayerActorBody_write_position env (trace w) b xyz = Inr () \<longrightarrow>
            teleport env xyz (Some Y) (c, w) =
              (PlayerActorBody_write_yaw env (trace w @ [WritePosition b xyz]) b Y, c1,
               w1\<lparr>trace := trace w @ [WritePosition b xyz, WriteYaw b Y]\<rparr>))"
proof -
  have tr: "trace w1 = trace w"
    using assms by (rule body_trace)
  have again: "\<And>w2. body (c1, w2) = (Inr b, c1, w2)"
    using assms by (rule body_cached)
  show ?thesis
    using assms tr again
    by (auto simp: teleport_def bind_def call_def return_def split: sum.splits)
qed

theorem teleport_writes_witness:
  "body (client1, world1) =
     (Inr 2, client1\<lparr>cached_body := Some 2\<rparr>,
      world1\<lparr>next_ref := 3, objects := (objects world1)(2 := Some (PlayerActorBody 1))\<rparr>)
   \<and> PlayerActorBody_write_position env_ok (trace world1) 2 (XYZ 1 2 3) = Inr ()
   \<and> issued world1 (snd (snd (teleport env_ok (XYZ 1 2 3) None (client1, world1))))
       = [WritePosition 2 (XYZ 1 2 3)]
   \<and> issued world1 (snd (snd (teleport env_ok (XYZ 1 2 3) (Some 90000) (client1, world1))))
       = [WritePosition 2 (XYZ 1 2 3), WriteYaw 2 90000]"
proof -
  have b: "body (client1, world1) =
     (Inr 2, client1\<lparr>cached_body := Some 2\<rparr>,
      world1\<lparr>next_ref := 3, objects := (objects world1)(2 := Some (PlayerActorBody 1))\<rparr>)"
    by (simp add: body_def cached_property_def construct_def new_def client1_def world1_def)
  have p: "PlayerActorBody_write_position env_ok (trace world1) 2 (XYZ 1 2 3) = Inr ()"
    by (simp add: env_ok_def)
  show ?thesis
    using b p teleport_writes [OF b, of env_ok "XYZ 1 2 3" 90000]
    by (simp add: issued_def)
qed

subsection \<open>\<^verbatim>\<open>set_mouse_position\<close>\<close>

text \<open>
  C7. When the conversion is requested and \<^verbatim>\<open>ClientToScreen\<close> returns 0,
  \<^verbatim>\<open>set_mouse_position\<close> raises \<^verbatim>\<open>RuntimeError("Client to screen conversion failed")\<close>, and
  the call of \<^verbatim>\<open>ClientToScreen\<close> is the only call it has made: no write of the mouse
  position, no mouse-move message.
\<close>

theorem set_mouse_position_conversion_failure:
  assumes "fst (user32_ClientToScreen env (trace w) (window_handle c) (tagPOINT x y)) = 0"
  shows "set_mouse_position env x y True use_post (c, w) =
           (Inl (RuntimeError ''Client to screen conversion failed''), c,
            w\<lparr>trace := trace w @
               [ClientToScreen (window_handle c) (fst (tagPOINT x y)) (snd (tagPOINT x y))]\<rparr>)"
  using assms
  by (auto simp: set_mouse_position_def bind_def call_def raise_def Let_def split: prod.splits)

theorem set_mouse_position_conversion_failure_witness:
  "fst (user32_ClientToScreen (env_ok\<lparr>user32_ClientToScreen := (\<lambda>t hwnd p. (0, p))\<rparr>)
          (trace world1) (window_handle client1) (tagPOINT 3 4)) = 0
   \<and> set_mouse_position (env_ok\<lparr>user32_ClientToScreen := (\<lambda>t hwnd p. (0, p))\<rparr>) 3 4 True False
       (client1, world1) =
       (Inl (RuntimeError ''Client to screen conversion failed''), client1,
        world1\<lparr>trace := [GetPidFromHandle 7, OpenProcessFromId 0 4242, ClientToScreen 7 3 4]\<rparr>)"
proof -
  have h: "fst (user32_ClientToScreen (env_ok\<lparr>user32_ClientToScreen := (\<lambda>t hwnd p. (0, p))\<rparr>)
          (trace world1) (window_handle client1) (tagPOINT 3 4)) = 0"
    by (simp add: env_ok_def)
  show ?thesis
    using h set_mouse_position_conversion_failure [OF h, of False]
    by (simp add: tagPOINT_def client1_def world1_def)
qed

subsection \<open>\<^verbatim>\<open>click\<close>: one call\<close>

lemmas io_defs = bind_def call_def return_def raise_def send_method_def

lemma set_mouse_position_frame:
  "set_mouse_position env x y conv up (c, w) = (r, c', w') \<Longrightarrow>
     c' = c \<and> next_ref w' = next_ref w \<and> objects w' = objects w \<and>
     (\<exists>evs. trace w' = trace w @ evs \<and> LockAcquire \<notin> set evs \<and> LockRelease \<notin> set evs)"
  by (auto simp: set_mouse_position_def io_defs Let_def split: prod.splits sum.splits if_splits)

lemma click_body_frame:
  "click_body env x y rc d up (c, w) = (r, c', w') \<Longrightarrow>
     c' = c \<and> next_ref w' = next_ref w \<and> objects w' = objects w \<and>
     (\<exists>evs. trace w' = trace w @ evs \<and> LockAcquire \<notin> set evs \<and> LockRelease \<notin> set evs)"
  unfolding click_body_def
  by (auto simp: io_defs split: prod.splits sum.splits if_splits dest!: set_mouse_position_frame)

lemma click_lock_discipline:
  assumes "click_lock c \<noteq> Some (Lock True)"
  shows "\<exists>r c' w' mid. click env x y rc d up (c, w) = Some (r, c', w')
           \<and> issued w w' = LockAcquire # mid @ [LockRelease]
           \<and> LockAcquire \<notin> set mid \<and> LockRelease \<notin> set mid
           \<and> c' = c\<lparr>click_lock := Some (Lock False)\<rparr>"
proof -
  let ?c1 = "if click_lock c = None then c\<lparr>click_lock := Some (Lock False)\<rparr> else c"
  have lk: "click_lock ?c1 = Some (Lock False)"
    using assms by (cases "click_lock c") (auto, metis (full_types) Lock.exhaust)
  obtain r cb wb where b: "click_body env x y rc d up
      (?c1\<lparr>click_lock := Some (Lock True)\<rparr>, w\<lparr>trace := trace w @ [LockAcquire]\<rparr>) = (r, cb, wb)"
    by (metis prod_cases3)
  from click_body_frame [OF b] obtain evs where
    f: "cb = ?c1\<lparr>click_lock := Some (Lock True)\<rparr>" "trace wb = (trace w @ [LockAcquire]) @ evs"
       "LockAcquire \<notin> set evs" "LockRelease \<notin> set evs"
    by auto
  have "click env x y rc d up (c, w) =
          Some (r, cb\<lparr>click_lock := Some (Lock False)\<rparr>, wb\<lparr>trace := trace wb @ [LockRelease]\<rparr>)"
    using lk b by (simp add: click_def async_with_def Let_def)
  moreover have "issued w (wb\<lparr>trace := trace wb @ [LockRelease]\<rparr>) = LockAcquire # evs @ [LockRelease]"
    using f by (simp add: issued_def)
  moreover have "cb\<lparr>click_lock := Some (Lock False)\<rparr> = c\<lparr>click_lock := Some (Lock False)\<rparr>"
    using f by simp
  ultimately show ?thesis using f by metis
qed





lemma click_shapes:
  assumes "click env x y rc d up (c, w) = Some (r, c', w')"
  shows "\<exists>x' y'.
     (issued w w' = [LockAcquire, ClientToScreen (window_handle c) (fst (tagPOINT x y)) (snd (tagPOINT x y)),
                     LockRelease] \<and> r \<noteq> Inr ())
   \<or> (issued w w' = [LockAcquire, ClientToScreen (window_handle c) (fst (tagPOINT x y)) (snd (tagPOINT x y)),
                     WriteMousePosition (hook_handler c) x' y', LockRelease] \<and> r \<noteq> Inr ())
   \<or> (issued w w' = [LockAcquire, ClientToScreen (window_handle c) (fst (tagPOINT x y)) (snd (tagPOINT x y)),
                     WriteMousePosition (hook_handler c) x' y', SendMessageW (window_handle c) 0x200 0 0,
                     LockRelease] \<and> r \<noteq> Inr ())
   \<or> (issued w w' = [LockAcquire, ClientToScreen (window_handle c) (fst (tagPOINT x y)) (snd (tagPOINT x y)),
                     WriteMousePosition (hook_handler c) x' y', SendMessageW (window_handle c) 0x200 0 0,
                     sent up (window_handle c) (button_down_message rc) 1 0,
                     LockRelease] \<and> r \<noteq> Inr ())
   \<or> (issued w w' = [LockAcquire, ClientToScreen (window_handle c) (fst (tagPOINT x y)) (snd (tagPOINT x y)),
                     WriteMousePosition (hook_handler c) x' y', SendMessageW (window_handle c) 0x200 0 0,
                     sent up (window_handle c) (button_down_message rc) 1 0, Sleep d,
                     LockRelease] \<and> 0 < d \<and> r \<noteq> Inr ())
   \<or> (issued w w' = [LockAcquire, ClientToScreen (window_handle c) (fst (tagPOINT x y)) (snd (tagPOINT x y)),
                     WriteMousePosition (hook_handler c) x' y', SendMessageW (window_handle c) 0x200 0 0,
                     sent up (window_handle c) (button_down_message rc) 1 0]
                    @ (if 0 < d then [Sleep d] else [])
                    @ [sent up (window_handle c) (button_down_message rc + 1) 0 0, LockRelease])"
  using assms
  by (auto simp: click_def async_with_def click_body_def set_mouse_position_def io_defs
        Let_def issued_def sent_def
        split: option.splits prod.splits sum.splits if_splits)

lemma sent_not_Sleep [simp]: "sent up h m a b \<noteq> Sleep t" "Sleep t \<noteq> sent up h m a b"
  by (auto simp: sent_def)

text \<open>
  C10. Whatever way a call of \<^verbatim>\<open>click\<close> ends: with \<^verbatim>\<open>sleep_duration\<close> zero or negative it
  makes no call of \<^verbatim>\<open>asyncio.sleep\<close>; a sleep it makes has the duration \<^verbatim>\<open>sleep_duration\<close>,
  which is then positive, follows the button-down message directly, and is the only one;
  and a call that returns with a positive \<^verbatim>\<open>sleep_duration\<close> has slept.
\<close>

theorem click_sleep:
  assumes "click env x y right_click sleep_duration use_post (c, w) = Some (r, c', w')"
  shows "(sleep_duration \<le> 0 \<longrightarrow> (\<forall>t. Sleep t \<notin> set (issued w w')))
       \<and> (\<forall>t. Sleep t \<in> set (issued w w') \<longrightarrow>
             t = sleep_duration \<and> 0 < sleep_duration
             \<and> (\<exists>before after. issued w w' =
                  before @ [sent use_post (window_handle c) (button_down_message right_click) 1 0,
                            Sleep sleep_duration] @ after
                  \<and> (\<forall>t'. Sleep t' \<notin> set before \<union> set after)))
       \<and> (0 < sleep_duration \<longrightarrow> r = Inr () \<longrightarrow> Sleep sleep_duration \<in> set (issued w w'))"
proof -
  let ?h = "window_handle c"
  let ?D = "sent use_post ?h (button_down_message right_click) 1 0"
  let ?U = "sent use_post ?h (button_down_message right_click + 1) 0 0"
  let ?C = "ClientToScreen ?h (fst (tagPOINT x y)) (snd (tagPOINT x y))"
  let ?M = "SendMessageW ?h 0x200 0 0"
  from click_shapes [OF assms] obtain x' y' where shapes:
    "(issued w w' = [LockAcquire, ?C, LockRelease] \<and> r \<noteq> Inr ())
   \<or> (issued w w' = [LockAcquire, ?C, WriteMousePosition (hook_handler c) x' y', LockRelease] \<and> r \<noteq> Inr ())
   \<or> (issued w w' = [LockAcquire, ?C, WriteMousePosition (hook_handler c) x' y', ?M, LockRelease] \<and> r \<noteq> Inr ())
   \<or> (issued w w' = [LockAcquire, ?C, WriteMousePosition (hook_handler c) x' y', ?M, ?D, LockRelease] \<and> r \<noteq> Inr ())
   \<or> (issued w w' = [LockAcquire, ?C, WriteMousePosition (hook_handler c) x' y', ?M, ?D, Sleep sleep_duration,
                     LockRelease] \<and> 0 < sleep_duration \<and> r \<noteq> Inr ())
   \<or> (issued w w' = [LockAcquire, ?C, WriteMousePosition (hook_handler c) x' y', ?M, ?D]
                    @ (if 0 < sleep_duration then [Sleep sleep_duration] else [])
                    @ [?U, LockRelease])"
    by blast
  let ?before = "[LockAcquire, ?C, WriteMousePosition (hook_handler c) x' y', ?M]"
  have none: "sleep_duration \<le> 0 \<longrightarrow> (\<forall>t. Sleep t \<notin> set (issued w w'))"
    using shapes by auto
  have last: "0 < sleep_duration \<longrightarrow> r = Inr () \<longrightarrow> Sleep sleep_duration \<in> set (issued w w')"
    using shapes by auto
  have only: "\<forall>t. Sleep t \<in> set (issued w w') \<longrightarrow>
             t = sleep_duration \<and> 0 < sleep_duration
             \<and> (\<exists>before after. issued w w' = before @ [?D, Sleep sleep_duration] @ after
                  \<and> (\<forall>t'. Sleep t' \<notin> set before \<union> set after))"
  proof (intro allI impI)
    fix t assume t: "Sleep t \<in> set (issued w w')"
    from shapes t consider
      (failed) "issued w w' = ?before @ [?D, Sleep sleep_duration] @ [LockRelease]" "0 < sleep_duration" "t = sleep_duration"
    | (passed) "issued w w' = ?before @ [?D, Sleep sleep_duration] @ [?U, LockRelease]" "0 < sleep_duration" "t = sleep_duration"
      by (auto split: if_splits)
    then show "t = sleep_duration \<and> 0 < sleep_duration
             \<and> (\<exists>before after. issued w w' = before @ [?D, Sleep sleep_duration] @ after
                  \<and> (\<forall>t'. Sleep t' \<notin> set before \<union> set after))"
    proof cases
      case failed
      have "\<forall>t'. Sleep t' \<notin> set ?before \<union> set [LockRelease]" by simp
      with failed show ?thesis by blast
    next
      case passed
      have "\<forall>t'. Sleep t' \<notin> set ?before \<union> set [?U, LockRelease]" by simp
      with passed show ?thesis by blast
    qed
  qed
  from none only last show ?thesis by blast
qed

theorem click_sleep_witness:
  "click env_ok 3 4 False (-1) False (client1, world1) =
     Some (Inr (), client1\<lparr>click_lock := Some (Lock False)\<rparr>,
       world1\<lparr>trace := trace world1 @
         [LockAcquire, ClientToScreen 7 3 4, WriteMousePosition 1 103 54,
          SendMessageW 7 0x200 0 0, SendMessageW 7 0x201 1 0,
          SendMessageW 7 0x202 0 0, LockRelease]\<rparr>)
   \<and> (\<forall>t. Sleep t \<notin> set (issued world1 (world1\<lparr>trace := trace world1 @
         [LockAcquire, ClientToScreen 7 3 4, WriteMousePosition 1 103 54,
          SendMessageW 7 0x200 0 0, SendMessageW 7 0x201 1 0,
          SendMessageW 7 0x202 0 0, LockRelease]\<rparr>)))
   \<and> click env_ok 3 4 False (1/4) False (client1, world1) =
     Some (Inr (), client1\<lparr>click_lock := Some (Lock False)\<rparr>,
       world1\<lparr>trace := trace world1 @
         [LockAcquire, ClientToScreen 7 3 4, WriteMousePosition 1 103 54,
          SendMessageW 7 0x200 0 0, SendMessageW 7 0x201 1 0, Sleep (1/4),
          SendMessageW 7 0x202 0 0, LockRelease]\<rparr>)
   \<and> Sleep (1/4) \<in> set (issued world1 (world1\<lparr>trace := trace world1 @
         [LockAcquire, ClientToScreen 7 3 4, WriteMousePosition 1 103 54,
          SendMessageW 7 0x200 0 0, SendMessageW 7 0x201 1 0, Sleep (1/4),
          SendMessageW 7 0x202 0 0, LockRelease]\<rparr>))"
proof -
  have h1: "click env_ok 3 4 False (-1) False (client1, world1) =
     Some (Inr (), client1\<lparr>click_lock := Some (Lock False)\<rparr>,
       world1\<lparr>trace := trace world1 @
         [LockAcquire, ClientToScreen 7 3 4, WriteMousePosition 1 103 54,
          SendMessageW 7 0x200 0 0, SendMessageW 7 0x201 1 0,
          SendMessageW 7 0x202 0 0, LockRelease]\<rparr>)"
    by (simp add: click_def async_with_def click_body_def set_mouse_position_def io_defs
          Let_def button_down_message_def tagPOINT_def env_ok_def client1_def world1_def)
  have h2: "click env_ok 3 4 False (1/4) False (client1, world1) =
     Some (Inr (), client1\<lparr>click_lock := Some (Lock False)\<rparr>,
       world1\<lparr>trace := trace world1 @
         [LockAcquire, ClientToScreen 7 3 4, WriteMousePosition 1 103 54,
          SendMessageW 7 0x200 0 0, SendMessageW 7 0x201 1 0, Sleep (1/4),
          SendMessageW 7 0x202 0 0, LockRelease]\<rparr>)"
    by (simp add: click_def async_with_def click_body_def set_mouse_position_def io_defs
          Let_def button_down_message_def tagPOINT_def env_ok_def client1_def world1_def)
  show ?thesis
    using h1 h2 click_sleep [OF h1] click_sleep [OF h2]
    by simp
qed

text \<open>
  C9. Whatever way a call of \<^verbatim>\<open>click\<close> ends and whatever \<^verbatim>\<open>use_post\<close> is: what it does after
  taking the lock starts with \<^verbatim>\<open>set_mouse_position(x, y)\<close> run with its defaults, conversion
  requested and \<^verbatim>\<open>use_post\<close> false, and all that follows are the two button messages, the
  sleep and the release; the conversion \<^verbatim>\<open>ClientToScreen\<close> is always the first call;
  \<^verbatim>\<open>PostMessageW\<close> carries only button messages and only when \<^verbatim>\<open>use_post\<close> is true;
  \<^verbatim>\<open>SendMessageW\<close> carries the mouse-move message (code 0x200) in every case and the
  button messages only when \<^verbatim>\<open>use_post\<close> is false.
\<close>

theorem click_use_post:
  assumes "click env x y right_click sleep_duration use_post (c, w) = Some (r, c', w')"
  shows "(\<exists>rm wm rest.
            set_mouse_position env x y True False
              (c\<lparr>click_lock := Some (Lock True)\<rparr>, w\<lparr>trace := trace w @ [LockAcquire]\<rparr>)
              = (rm, c\<lparr>click_lock := Some (Lock True)\<rparr>, wm)
            \<and> trace w' = trace wm @ rest
            \<and> set rest \<subseteq> {sent use_post (window_handle c) (button_down_message right_click) 1 0,
                            sent use_post (window_handle c) (button_down_message right_click + 1) 0 0,
                            Sleep sleep_duration, LockRelease})
       \<and> (\<exists>rest. issued w w' =
             LockAcquire # ClientToScreen (window_handle c) (fst (tagPOINT x y)) (snd (tagPOINT x y)) # rest)
       \<and> (\<forall>h m a b. PostMessageW h m a b \<in> set (issued w w') \<longrightarrow>
             use_post \<and> (m = button_down_message right_click \<or> m = button_down_message right_click + 1))
       \<and> (\<forall>h m a b. SendMessageW h m a b \<in> set (issued w w') \<longrightarrow>
             m = 0x200 \<or>
             (\<not> use_post \<and> (m = button_down_message right_click \<or> m = button_down_message right_click + 1)))"
proof -
  let ?s = "(c\<lparr>click_lock := Some (Lock True)\<rparr>, w\<lparr>trace := trace w @ [LockAcquire]\<rparr>)"
  obtain rm cm wm where m: "set_mouse_position env x y True False ?s = (rm, cm, wm)"
    by (metis prod_cases3)
  have cm: "cm = c\<lparr>click_lock := Some (Lock True)\<rparr>"
    using set_mouse_position_frame [OF m] by simp
  have "\<exists>rest. trace w' = trace wm @ rest
            \<and> set rest \<subseteq> {sent use_post (window_handle c) (button_down_message right_click) 1 0,
                            sent use_post (window_handle c) (button_down_message right_click + 1) 0 0,
                            Sleep sleep_duration, LockRelease}"
    using assms m cm
    by (auto simp: click_def async_with_def click_body_def io_defs Let_def sent_def
          split: option.splits prod.splits sum.splits if_splits)
  then have first: "\<exists>rm wm rest.
            set_mouse_position env x y True False ?s = (rm, c\<lparr>click_lock := Some (Lock True)\<rparr>, wm)
            \<and> trace w' = trace wm @ rest
            \<and> set rest \<subseteq> {sent use_post (window_handle c) (button_down_message right_click) 1 0,
                            sent use_post (window_handle c) (button_down_message right_click + 1) 0 0,
                            Sleep sleep_duration, LockRelease}"
    using m cm by blast
  have rest: "(\<exists>rest. issued w w' =
             LockAcquire # ClientToScreen (window_handle c) (fst (tagPOINT x y)) (snd (tagPOINT x y)) # rest)
       \<and> (\<forall>h m a b. PostMessageW h m a b \<in> set (issued w w') \<longrightarrow>
             use_post \<and> (m = button_down_message right_click \<or> m = button_down_message right_click + 1))
       \<and> (\<forall>h m a b. SendMessageW h m a b \<in> set (issued w w') \<longrightarrow>
             m = 0x200 \<or>
             (\<not> use_post \<and> (m = button_down_message right_click \<or> m = button_down_message right_click + 1)))"
    using click_shapes [OF assms]
    by (auto simp: sent_def split: if_splits)
  from first rest show ?thesis by blast
qed

theorem click_use_post_witness:
  "click env_ok 3 4 False 0 True (client1, world1) =
     Some (Inr (), client1\<lparr>click_lock := Some (Lock False)\<rparr>,
       world1\<lparr>trace := trace world1 @
         [LockAcquire, ClientToScreen 7 3 4, WriteMousePosition 1 103 54,
          SendMessageW 7 0x200 0 0, PostMessageW 7 0x201 1 0,
          PostMessageW 7 0x202 0 0, LockRelease]\<rparr>)
   \<and> SendMessageW 7 0x201 1 0 \<notin> set (issued world1 (world1\<lparr>trace := trace world1 @
         [LockAcquire, ClientToScreen 7 3 4, WriteMousePosition 1 103 54,
          SendMessageW 7 0x200 0 0, PostMessageW 7 0x201 1 0,
          PostMessageW 7 0x202 0 0, LockRelease]\<rparr>))
   \<and> SendMessageW 7 0x200 0 0 \<in> set (issued world1 (world1\<lparr>trace := trace world1 @
         [LockAcquire, ClientToScreen 7 3 4, WriteMousePosition 1 103 54,
          SendMessageW 7 0x200 0 0, PostMessageW 7 0x201 1 0,
          PostMessageW 7 0x202 0 0, LockRelease]\<rparr>))"
proof -
  have h: "click env_ok 3 4 False 0 True (client1, world1) =
     Some (Inr (), client1\<lparr>click_lock := Some (Lock False)\<rparr>,
       world1\<lparr>trace := trace world1 @
         [LockAcquire, ClientToScreen 7 3 4, WriteMousePosition 1 103 54,
          SendMessageW 7 0x200 0 0, PostMessageW 7 0x201 1 0,
          PostMessageW 7 0x202 0 0, LockRelease]\<rparr>)"
    by (simp add: click_def async_with_def click_body_def set_mouse_position_def io_defs
          Let_def button_down_message_def tagPOINT_def env_ok_def client1_def world1_def)
  show ?thesis
    using h click_use_post [OF h]
    by (simp add: issued_def world1_def)
qed

subsection \<open>\<^verbatim>\<open>goto\<close>\<close>

lemma XYZ_sub_same_z:
  "XYZ_sub P (XYZ x y (xyz_z P)) = sqrt ((xyz_x P - x)\<^sup>2 + (xyz_y P - y)\<^sup>2)"
  by (simp add: XYZ_sub_def)

lemma XYZ_sub_ten: "xyz_x P = 0 \<Longrightarrow> xyz_y P = 0 \<Longrightarrow> XYZ_sub P (XYZ 10 0 (xyz_z P)) = 10"
proof -
  assume "xyz_x P = 0" "xyz_y P = 0"
  then have "XYZ_sub P (XYZ 10 0 (xyz_z P)) = sqrt ((10::real)\<^sup>2)"
    by (simp add: XYZ_sub_def)
  also have "\<dots> = 10"
    by simp
  finally show ?thesis .
qed

text \<open>
  C2. Let \<open>b\<close> be the body view of the client, let the one read of the position return
  \<open>P\<close>, let base speed times multiplier be other than zero, and let the yaw computation
  and the yaw write return. Then \<^verbatim>\<open>goto(x, y)\<close> issues exactly three calls: the read of the
  position; the write of the yaw computed from \<open>P\<close> to the target \<open>(x, y, P.z)\<close>; the hold of
  the key \<^verbatim>\<open>W\<close> for the distance from \<open>P\<close> to that target divided by base speed times
  multiplier. It ends as the key hold ends. The distance is the Euclidean one; from
  \<open>(0, 0, z)\<close> to \<open>(10, 0)\<close> the duration is \<open>10 / (S * M)\<close>.
\<close>

theorem goto_calls:
  assumes "body (c, w) = (Inr b, c1, w1)"
    and "PlayerActorBody_position env (trace w) b = Inr P"
    and "WIZARD_SPEED env * speed_multiplier \<noteq> 0"
    and "utils_calculate_perfect_yaw env P (XYZ x y (xyz_z P)) = Inr yaw"
    and "PlayerActorBody_write_yaw env (trace w @ [PositionRead b]) b yaw = Inr ()"
  shows "goto env x y speed_multiplier (c, w) =
           (utils_timed_send_key env (trace w @ [PositionRead b, WriteYaw b yaw]) (window_handle c) W
              (XYZ_sub P (XYZ x y (xyz_z P)) / (WIZARD_SPEED env * speed_multiplier)),
            c1,
            w1\<lparr>trace := trace w @
              [PositionRead b, WriteYaw b yaw,
               TimedSendKey (window_handle c) W
                 (XYZ_sub P (XYZ x y (xyz_z P)) / (WIZARD_SPEED env * speed_multiplier))]\<rparr>)
       \<and> XYZ_sub P (XYZ x y (xyz_z P)) = sqrt ((xyz_x P - x)\<^sup>2 + (xyz_y P - y)\<^sup>2 + (xyz_z P - xyz_z P)\<^sup>2)
       \<and> (xyz_x P = 0 \<and> xyz_y P = 0 \<and> x = 10 \<and> y = 0 \<longrightarrow>
            XYZ_sub P (XYZ x y (xyz_z P)) / (WIZARD_SPEED env * speed_multiplier)
              = 10 / (WIZARD_SPEED env * speed_multiplier))"
proof -
  have tr: "trace w1 = trace w"
    using assms(1) by (rule body_trace)
  have again: "\<And>w2. body (c1, w2) = (Inr b, c1, w2)"
    using assms(1) by (rule body_cached)
  have wh: "window_handle c1 = window_handle c"
    using assms(1)
    by (auto simp: body_def cached_property_def construct_def new_def split: option.splits)
  have run: "goto env x y speed_multiplier (c, w) =
           (utils_timed_send_key env (trace w @ [PositionRead b, WriteYaw b yaw]) (window_handle c) W
              (XYZ_sub P (XYZ x y (xyz_z P)) / (WIZARD_SPEED env * speed_multiplier)),
            c1,
            w1\<lparr>trace := trace w @
              [PositionRead b, WriteYaw b yaw,
               TimedSendKey (window_handle c) W
                 (XYZ_sub P (XYZ x y (xyz_z P)) / (WIZARD_SPEED env * speed_multiplier))]\<rparr>)"
    using assms tr again wh
    by (simp add: goto_def bind_def call_def raise_def send_key_def Let_def)
  have dist: "XYZ_sub P (XYZ x y (xyz_z P)) = sqrt ((xyz_x P - x)\<^sup>2 + (xyz_y P - y)\<^sup>2 + (xyz_z P - xyz_z P)\<^sup>2)"
    by (simp add: XYZ_sub_def)
  have ten: "xyz_x P = 0 \<and> xyz_y P = 0 \<and> x = 10 \<and> y = 0 \<longrightarrow>
            XYZ_sub P (XYZ x y (xyz_z P)) / (WIZARD_SPEED env * speed_multiplier)
              = 10 / (WIZARD_SPEED env * speed_multiplier)"
    using XYZ_sub_ten [of P] by auto
  from run dist ten show ?thesis by blast
qed

theorem goto_calls_witness:
  "body (client1, world1) =
     (Inr 2, client1\<lparr>cached_body := Some 2\<rparr>,
      world1\<lparr>next_ref := 3, objects := (objects world1)(2 := Some (PlayerActorBody 1))\<rparr>)
   \<and> PlayerActorBody_position env_ok (trace world1) 2 = Inr (XYZ 0 0 0)
   \<and> WIZARD_SPEED env_ok * 2 \<noteq> 0
   \<and> utils_calculate_perfect_yaw env_ok (XYZ 0 0 0) (XYZ 10 0 (xyz_z (XYZ 0 0 0))) = Inr 0
   \<and> PlayerActorBody_write_yaw env_ok (trace world1 @ [PositionRead 2]) 2 0 = Inr ()
   \<and> goto env_ok 10 0 2 (client1, world1) =
       (Inr (), client1\<lparr>cached_body := Some 2\<rparr>,
        world1\<lparr>next_ref := 3, objects := (objects world1)(2 := Some (PlayerActorBody 1)),
          trace := [GetPidFromHandle 7, OpenProcessFromId 0 4242,
                    PositionRead 2, WriteYaw 2 0, TimedSendKey 7 W (10 / (580 * 2))]\<rparr>)"
proof -
  have b: "body (client1, world1) =
     (Inr 2, client1\<lparr>cached_body := Some 2\<rparr>,
      world1\<lparr>next_ref := 3, objects := (objects world1)(2 := Some (PlayerActorBody 1))\<rparr>)"
    by (simp add: body_def cached_property_def construct_def new_def client1_def world1_def)
  have p: "PlayerActorBody_position env_ok (trace world1) 2 = Inr (XYZ 0 0 0)"
    by (simp add: env_ok_def)
  have s: "WIZARD_SPEED env_ok * 2 \<noteq> 0"
    by (simp add: env_ok_def)
  have y: "utils_calculate_perfect_yaw env_ok (XYZ 0 0 0) (XYZ 10 0 (xyz_z (XYZ 0 0 0))) = Inr 0"
    by (simp add: env_ok_def)
  have wy: "PlayerActorBody_write_yaw env_ok (trace world1 @ [PositionRead 2]) 2 0 = Inr ()"
    by (simp add: env_ok_def)
  have w: "WIZARD_SPEED env_ok = 580"
    by (simp add: env_ok_def)
  have k: "\<And>t h k d. utils_timed_send_key env_ok t h k d = Inr ()"
    by (simp add: env_ok_def)
  show ?thesis
    using b p s y wy goto_calls [OF b p s y wy]
    by (simp add: w k client1_def world1_def)
qed

subsection \<open>Cached properties\<close>

lemma grows_refl: "grows s s"
  by (simp add: grows_def slot_kept_def issued_def list_all_iff split: option.splits)

lemma no_pid_issued_append:
  assumes "take (length (trace w)) (trace w') = trace w"
    and "take (length (trace w')) (trace w'') = trace w'"
  shows "issued w w'' = issued w w' @ issued w' w''"
proof -
  obtain a where a: "trace w' = trace w @ a"
    using assms(1) by (metis append_take_drop_id)
  obtain b where b: "trace w'' = trace w' @ b"
    using assms(2) by (metis append_take_drop_id)
  show ?thesis by (simp add: issued_def a b)
qed

lemma slot_kept_trans:
  assumes "slot_kept slot kind s s'" "slot_kept slot kind s' s''"
    and "next_ref (snd s) \<le> next_ref (snd s')" "next_ref (snd s') \<le> next_ref (snd s'')"
    and "\<forall>r < next_ref (snd s'). objects (snd s'') r = objects (snd s') r"
    and "hook_handler (fst s') = hook_handler (fst s)"
  shows "slot_kept slot kind s s''"
  using assms by (auto simp: slot_kept_def split: option.splits)

lemma grows_trans:
  assumes "grows s s'" "grows s' s''"
  shows "grows s s''"
proof -
  have t1: "take (length (trace (snd s))) (trace (snd s')) = trace (snd s)"
    and t2: "take (length (trace (snd s'))) (trace (snd s'')) = trace (snd s')"
    using assms by (simp_all add: grows_def)
  have iss: "issued (snd s) (snd s'') = issued (snd s) (snd s') @ issued (snd s') (snd s'')"
    using t1 t2 by (rule no_pid_issued_append)
  have t3: "take (length (trace (snd s))) (trace (snd s'')) = trace (snd s)"
    by (metis t1 t2 append_take_drop_id append_eq_conv_conj append.assoc)
  have n: "next_ref (snd s) \<le> next_ref (snd s')" "next_ref (snd s') \<le> next_ref (snd s'')"
    using assms by (simp_all add: grows_def)
  have o1: "\<forall>r < next_ref (snd s). objects (snd s') r = objects (snd s) r"
    and o2: "\<forall>r < next_ref (snd s'). objects (snd s'') r = objects (snd s') r"
    using assms by (simp_all add: grows_def list_all_iff)
  have o3: "\<forall>r < next_ref (snd s). objects (snd s'') r = objects (snd s) r"
    using o1 o2 n by auto
  have h: "hook_handler (fst s') = hook_handler (fst s)"
    using assms by (simp add: grows_def)
  have sl: "slot_kept cached_stats PlayerStats s s''"
      "slot_kept cached_body PlayerActorBody s s''"
      "slot_kept cached_duel PlayerDuel s s''"
      "slot_kept cached_quest_position CurrentQuestPosition s s''"
    using assms n o2 h by (auto simp: grows_def intro: slot_kept_trans)
  have pid: "case cached_process_id (fst s) of
            None \<Rightarrow> True
          | Some p \<Rightarrow> cached_process_id (fst s'') = Some p
                      \<and> list_all (\<lambda>e. \<not> is_get_pid e)
                           (issued (snd s) (snd s''))"
    using assms iss by (auto simp: grows_def split: option.splits)
  show ?thesis
    using assms t3 n o3 sl pid
    by (simp add: grows_def list_all_iff)
qed

lemma slot_kept_same: "slot (fst s') = slot (fst s) \<Longrightarrow> slot_kept slot kind s s'"
  by (simp add: slot_kept_def split: option.splits)

lemma grows_log:
  assumes "list_all (\<lambda>e. \<not> is_get_pid e) evs"
  shows "grows (c, w) (c, w\<lparr>trace := trace w @ evs\<rparr>)"
proof -
  have "case cached_process_id c of
            None \<Rightarrow> True
          | Some p \<Rightarrow> cached_process_id c = Some p
                      \<and> list_all (\<lambda>e. \<not> is_get_pid e)
                           (issued w (w\<lparr>trace := trace w @ evs\<rparr>))"
    using assms by (simp add: issued_def split: option.splits)
  then show ?thesis
    by (simp add: grows_def slot_kept_same list_all_iff split: option.splits)
qed

lemma steady_return: "steady (return a)"
  by (simp add: steady_def return_def grows_refl)

lemma steady_raise: "steady (raise e)"
  by (simp add: steady_def raise_def grows_refl)

lemma steady_bind: "steady m \<Longrightarrow> (\<And>a. steady (f a)) \<Longrightarrow> steady (bind m f)"
  unfolding steady_def bind_def
  by (auto split: prod.splits sum.splits) (blast intro: grows_trans)

lemma steady_call:
  assumes "\<not> is_get_pid e"
  shows "steady (call e f)"
proof -
  have "grows (c, w) (c, w\<lparr>trace := trace w @ [e]\<rparr>)" for c w
    using assms by (intro grows_log) simp
  then show ?thesis
    by (simp add: steady_def call_def)
qed

lemma steady_self: "(\<And>c. steady (g c)) \<Longrightarrow> steady (\<lambda>(c, w). g c (c, w))"
  unfolding steady_def by auto

lemma steady_if: "steady m \<Longrightarrow> steady n \<Longrightarrow> steady (if b then m else n)"
  by simp


lemma steady_case_prod: "(\<And>a b. steady (f a b)) \<Longrightarrow> steady (case p of (a, b) \<Rightarrow> f a b)"
  by (cases p) simp

lemma steady_case_prod3:
  "(\<And>a b c. steady (f a b c)) \<Longrightarrow> steady (case p of (a, b, c) \<Rightarrow> f a b c)"
  by (cases p) simp

lemma grows_new_view:
  assumes "slot c = None"
    and "slot (store (next_ref w) c) = Some (next_ref w)"
    and "window_handle (store (next_ref w) c) = window_handle c"
    and "pymem (store (next_ref w) c) = pymem c"
    and "hook_handler (store (next_ref w) c) = hook_handler c"
    and "cached_process_id (store (next_ref w) c) = cached_process_id c"
    and "slot_kept cached_stats PlayerStats (c, w) (store (next_ref w) c, snd (new (kind (hook_handler c)) w))"
    and "slot_kept cached_body PlayerActorBody (c, w) (store (next_ref w) c, snd (new (kind (hook_handler c)) w))"
    and "slot_kept cached_duel PlayerDuel (c, w) (store (next_ref w) c, snd (new (kind (hook_handler c)) w))"
    and "slot_kept cached_quest_position CurrentQuestPosition (c, w) (store (next_ref w) c, snd (new (kind (hook_handler c)) w))"
  shows "grows (c, w) (store (next_ref w) c, snd (new (kind (hook_handler c)) w))"
  using assms
  by (simp add: grows_def new_def issued_def list_all_iff split: option.splits)

lemma steady_stats: "steady stats"
proof -
  have "grows (c, w) (c', w')" if "stats (c, w) = (r, c', w')" for c w r c' w'
  proof (cases "cached_stats c")
    case (Some v)
    with that show ?thesis
      by (simp add: stats_def cached_property_def grows_refl)
  next
    case None
    with that have eq: "c' = c\<lparr>cached_stats := Some (next_ref w)\<rparr>"
        "w' = snd (new (PlayerStats (hook_handler c)) w)"
      by (auto simp: stats_def cached_property_def construct_def new_def)
    show ?thesis
      unfolding eq
      using None
      by (intro grows_new_view [where slot = cached_stats and kind = PlayerStats
            and store = "\<lambda>v c. c\<lparr>cached_stats := Some v\<rparr>"])
         (simp_all add: slot_kept_def new_def split: option.splits)
  qed
  then show ?thesis
    unfolding steady_def by auto
qed

lemma steady_body: "steady body"
proof -
  have "grows (c, w) (c', w')" if "body (c, w) = (r, c', w')" for c w r c' w'
  proof (cases "cached_body c")
    case (Some v)
    with that show ?thesis
      by (simp add: body_def cached_property_def grows_refl)
  next
    case None
    with that have eq: "c' = c\<lparr>cached_body := Some (next_ref w)\<rparr>"
        "w' = snd (new (PlayerActorBody (hook_handler c)) w)"
      by (auto simp: body_def cached_property_def construct_def new_def)
    show ?thesis
      unfolding eq
      using None
      by (intro grows_new_view [where slot = cached_body and kind = PlayerActorBody
            and store = "\<lambda>v c. c\<lparr>cached_body := Some v\<rparr>"])
         (simp_all add: slot_kept_def new_def split: option.splits)
  qed
  then show ?thesis
    unfolding steady_def by auto
qed

lemma steady_duel: "steady duel"
proof -
  have "grows (c, w) (c', w')" if "duel (c, w) = (r, c', w')" for c w r c' w'
  proof (cases "cached_duel c")
    case (Some v)
    with that show ?thesis
      by (simp add: duel_def cached_property_def grows_refl)
  next
    case None
    with that have eq: "c' = c\<lparr>cached_duel := Some (next_ref w)\<rparr>"
        "w' = snd (new (PlayerDuel (hook_handler c)) w)"
      by (auto simp: duel_def cached_property_def construct_def new_def)
    show ?thesis
      unfolding eq
      using None
      by (intro grows_new_view [where slot = cached_duel and kind = PlayerDuel
            and store = "\<lambda>v c. c\<lparr>cached_duel := Some v\<rparr>"])
         (simp_all add: slot_kept_def new_def split: option.splits)
  qed
  then show ?thesis
    unfolding steady_def by auto
qed

lemma steady_quest_position: "steady quest_position"
proof -
  have "grows (c, w) (c', w')" if "quest_position (c, w) = (r, c', w')" for c w r c' w'
  proof (cases "cached_quest_position c")
    case (Some v)
    with that show ?thesis
      by (simp add: quest_position_def cached_property_def grows_refl)
  next
    case None
    with that have eq: "c' = c\<lparr>cached_quest_position := Some (next_ref w)\<rparr>"
        "w' = snd (new (CurrentQuestPosition (hook_handler c)) w)"
      by (auto simp: quest_position_def cached_property_def construct_def new_def)
    show ?thesis
      unfolding eq
      using None
      by (intro grows_new_view [where slot = cached_quest_position and kind = CurrentQuestPosition
            and store = "\<lambda>v c. c\<lparr>cached_quest_position := Some v\<rparr>"])
         (simp_all add: slot_kept_def new_def split: option.splits)
  qed
  then show ?thesis
    unfolding steady_def by auto
qed

lemma steady_process_id: "steady (process_id env)"
proof -
  have "grows (c, w) (c', w')" if "process_id env (c, w) = (r, c', w')" for c w r c' w'
  proof (cases "cached_process_id c")
    case (Some v)
    with that show ?thesis
      by (simp add: process_id_def cached_property_def grows_refl)
  next
    case None
    with that have "w' = w\<lparr>trace := trace w @ [GetPidFromHandle (window_handle c)]\<rparr>"
      and "c' = c \<or> (\<exists>p. c' = c\<lparr>cached_process_id := Some p\<rparr>)"
      by (auto simp: process_id_def cached_property_def call_def split: sum.splits)
    with None show ?thesis
      by (auto simp: grows_def slot_kept_same list_all_iff)
  qed
  then show ?thesis
    unfolding steady_def by auto
qed

lemma steady_send_method: "steady (send_method env up h m a b)"
  by (simp add: send_method_def steady_call)

lemmas steady_intros = steady_return steady_raise steady_bind steady_call steady_self steady_if
  steady_stats steady_body steady_duel steady_quest_position steady_process_id steady_send_method

lemma steady_is_running: "steady (is_running env)"
  unfolding is_running_def by (intro steady_intros) simp

lemma steady_close: "steady (close env)"
  unfolding close_def by (intro steady_intros steady_is_running) simp

lemma steady_activate_hooks: "steady (activate_hooks env)"
  unfolding activate_hooks_def by (intro steady_intros) simp

lemma steady_login: "steady (login env u p)"
  unfolding login_def by (intro steady_intros) simp

lemma steady_send_key: "steady (send_key env k d)"
  unfolding send_key_def by (intro steady_intros) simp

lemma steady_set_mouse_position: "steady (set_mouse_position env x y cv up)"
  unfolding set_mouse_position_def Let_def
  by (auto intro!: steady_intros split: prod.splits)

lemma steady_in_battle: "steady (in_battle env)"
proof -
  have inner: "steady (bind duel (\<lambda>d. call (DuelPhaseRead d) (\<lambda>t. PlayerDuel_duel_phase env t d)))"
    by (intro steady_intros) simp
  have "grows s s'" if "in_battle env s = (r, s')" for s r s'
  proof -
    obtain r0 s0 where b: "bind duel (\<lambda>d. call (DuelPhaseRead d) (\<lambda>t. PlayerDuel_duel_phase env t d)) s = (r0, s0)"
      by (cases "bind duel (\<lambda>d. call (DuelPhaseRead d) (\<lambda>t. PlayerDuel_duel_phase env t d)) s")
    with that have "s' = s0"
      by (auto simp: in_battle_def split: sum.splits error.splits)
    with inner b show ?thesis
      unfolding steady_def by blast
  qed
  then show ?thesis
    unfolding steady_def by blast
qed

lemma steady_teleport: "steady (teleport env xyz yaw)"
  unfolding teleport_def
  by (auto intro!: steady_intros split: option.splits)

lemma steady_goto: "steady (goto env x y m)"
  unfolding goto_def Let_def
  by (auto intro!: steady_intros steady_send_key split: sum.splits)

lemma steady_click_body: "steady (click_body env x y rc d up)"
  unfolding click_body_def
  by (auto intro!: steady_intros steady_set_mouse_position)

lemma grows_lock: "grows (c, w) (c\<lparr>click_lock := lk\<rparr>, w)"
  by (simp add: grows_def slot_kept_same issued_def list_all_iff split: option.splits)

lemma click_grows:
  assumes "click env x y rc d up (c, w) = Some (r, c', w')"
  shows "grows (c, w) (c', w')"
proof -
  let ?c1 = "if click_lock c = None then c\<lparr>click_lock := Some (Lock False)\<rparr> else c"
  from assms obtain cb wb where
    b: "click_body env x y rc d up
          (?c1\<lparr>click_lock := Some (Lock True)\<rparr>, w\<lparr>trace := trace w @ [LockAcquire]\<rparr>) = (r, cb, wb)"
    and c': "c' = cb\<lparr>click_lock := Some (Lock False)\<rparr>"
    and w': "w' = wb\<lparr>trace := trace wb @ [LockRelease]\<rparr>"
    by (auto simp: click_def async_with_def Let_def split: option.splits if_splits prod.splits)
  have 1: "grows (c, w) (?c1\<lparr>click_lock := Some (Lock True)\<rparr>, w)"
    using grows_lock [of c w "Some (Lock True)"] by simp
  have 2: "grows (?c1\<lparr>click_lock := Some (Lock True)\<rparr>, w)
                 (?c1\<lparr>click_lock := Some (Lock True)\<rparr>, w\<lparr>trace := trace w @ [LockAcquire]\<rparr>)"
    by (intro grows_log) simp
  have 3: "grows (?c1\<lparr>click_lock := Some (Lock True)\<rparr>, w\<lparr>trace := trace w @ [LockAcquire]\<rparr>) (cb, wb)"
    using steady_click_body b unfolding steady_def by blast
  have 4: "grows (cb, wb) (cb, wb\<lparr>trace := trace wb @ [LockRelease]\<rparr>)"
    by (intro grows_log) simp
  have 5: "grows (cb, wb\<lparr>trace := trace wb @ [LockRelease]\<rparr>) (c', w')"
    unfolding c' w' by (rule grows_lock)
  from 1 2 3 4 5 show ?thesis
    by (blast intro: grows_trans)
qed

lemma discard_grows: "steady m \<Longrightarrow> discard (m s) = Some s' \<Longrightarrow> grows s s'"
  unfolding steady_def discard_def by (cases "m s"; cases s) auto

lemma invoke_grows: "invoke env m s = Some s' \<Longrightarrow> grows s s'"
proof (cases m)
  case (Click x y rc d up)
  assume "invoke env m s = Some s'"
  with Click show ?thesis
    by (cases s; cases s') (auto dest: click_grows)
qed (auto intro: discard_grows steady_intros steady_is_running steady_close steady_activate_hooks
       steady_login steady_send_key steady_set_mouse_position steady_in_battle steady_teleport
       steady_goto)

lemma invoke_all_grows: "invoke_all env ms s = Some s' \<Longrightarrow> grows s s'"
proof (induction ms arbitrary: s)
  case Nil
  then show ?case by (simp add: grows_refl)
next
  case (Cons m ms)
  then obtain s1 where "invoke env m s = Some s1" "invoke_all env ms s1 = Some s'"
    by (auto split: option.splits)
  then show ?case
    using Cons.IH invoke_grows grows_trans by blast
qed

lemma init_result:
  assumes "init env hwnd w0 = (Inr c0, w1)"
  shows "\<exists>p. cached_process_id c0 = Some p
           \<and> utils_get_pid_from_handle env (trace w0) hwnd = Inr p
           \<and> trace w1 = trace w0 @ [GetPidFromHandle hwnd, OpenProcessFromId (next_ref w0) p]
           \<and> window_handle c0 = hwnd
           \<and> cached_stats c0 = None \<and> cached_body c0 = None
           \<and> cached_duel c0 = None \<and> cached_quest_position c0 = None
           \<and> click_lock c0 = None"
  using assms
  by (auto simp: init_def new_def process_id_def cached_property_def io_defs Let_def
        split: prod.splits sum.splits)

lemma issued_eq: "trace w' = trace w @ xs \<Longrightarrow> issued w w' = xs"
  by (simp add: issued_def)

lemma grows_trace: "grows (c, w) (c', w') \<Longrightarrow> trace w' = trace w @ issued w w'"
  by (metis grows_def issued_def append_take_drop_id snd_conv)

lemma grows_pid:
  "grows (c, w) (c', w') \<Longrightarrow> cached_process_id c = Some p \<Longrightarrow>
     cached_process_id c' = Some p \<and> filter is_get_pid (issued w w') = []"
  by (auto simp: grows_def list_all_iff filter_empty_conv)

lemma grows_slot:
  assumes "grows (c, w) (c', w')"
  shows "slot_kept cached_stats PlayerStats (c, w) (c', w')"
    "slot_kept cached_body PlayerActorBody (c, w) (c', w')"
    "slot_kept cached_duel PlayerDuel (c, w) (c', w')"
    "slot_kept cached_quest_position CurrentQuestPosition (c, w) (c', w')"
  using assms by (simp_all add: grows_def)

lemma slot_kept_Some: "slot_kept slot kind (c, w) (c', w') \<Longrightarrow> slot c = Some r \<Longrightarrow> slot c' = Some r"
  by (simp add: slot_kept_def)

lemma slot_kept_None:
  "slot_kept slot kind (c, w) (c', w') \<Longrightarrow> slot c = None \<Longrightarrow> slot c' = Some r \<Longrightarrow>
     next_ref w \<le> r \<and> r < next_ref w' \<and> objects w' r = Some (kind (hook_handler c))"
  by (simp add: slot_kept_def)

lemma grows_objects: "grows (c, w) (c', w') \<Longrightarrow> r < next_ref w \<Longrightarrow> objects w' r = objects w r"
  by (simp add: grows_def list_all_iff)

lemma accessor_first:
  "cached_stats c = None \<Longrightarrow> stats (c, w) =
     (Inr (next_ref w), c\<lparr>cached_stats := Some (next_ref w)\<rparr>,
      w\<lparr>next_ref := Suc (next_ref w), objects := (objects w)(next_ref w := Some (PlayerStats (hook_handler c)))\<rparr>)"
  "cached_body c = None \<Longrightarrow> body (c, w) =
     (Inr (next_ref w), c\<lparr>cached_body := Some (next_ref w)\<rparr>,
      w\<lparr>next_ref := Suc (next_ref w), objects := (objects w)(next_ref w := Some (PlayerActorBody (hook_handler c)))\<rparr>)"
  "cached_duel c = None \<Longrightarrow> duel (c, w) =
     (Inr (next_ref w), c\<lparr>cached_duel := Some (next_ref w)\<rparr>,
      w\<lparr>next_ref := Suc (next_ref w), objects := (objects w)(next_ref w := Some (PlayerDuel (hook_handler c)))\<rparr>)"
  "cached_quest_position c = None \<Longrightarrow> quest_position (c, w) =
     (Inr (next_ref w), c\<lparr>cached_quest_position := Some (next_ref w)\<rparr>,
      w\<lparr>next_ref := Suc (next_ref w), objects := (objects w)(next_ref w := Some (CurrentQuestPosition (hook_handler c)))\<rparr>)"
  by (simp_all add: stats_def body_def duel_def quest_position_def cached_property_def
        construct_def new_def)

lemma accessor_again:
  "cached_stats c = Some r \<Longrightarrow> stats (c, w) = (Inr r, c, w)"
  "cached_body c = Some r \<Longrightarrow> body (c, w) = (Inr r, c, w)"
  "cached_duel c = Some r \<Longrightarrow> duel (c, w) = (Inr r, c, w)"
  "cached_quest_position c = Some r \<Longrightarrow> quest_position (c, w) = (Inr r, c, w)"
  by (simp_all add: stats_def body_def duel_def quest_position_def cached_property_def)

lemma accessor_one:
  assumes "slot_kept slot kind (c, w) (c', w')"
    and "\<And>c w. slot c = None \<Longrightarrow> acc (c, w) =
           (Inr (next_ref w), store (next_ref w) c,
            w\<lparr>next_ref := Suc (next_ref w), objects := (objects w)(next_ref w := Some (kind (hook_handler c)))\<rparr>)"
    and "\<And>c w r. slot c = Some r \<Longrightarrow> acc (c, w) = (Inr r, c, w)"
    and "\<And>r. r < next_ref w \<Longrightarrow> objects w' r = objects w r"
  shows "(slot c = None \<longrightarrow>
           acc (c, w) = (Inr (next_ref w), store (next_ref w) c,
             w\<lparr>next_ref := Suc (next_ref w),
               objects := (objects w)(next_ref w := Some (kind (hook_handler c)))\<rparr>))
      \<and> (\<forall>r. slot c = Some r \<longrightarrow>
           acc (c, w) = (Inr r, c, w) \<and> slot c' = Some r \<and> acc (c', w') = (Inr r, c', w')
           \<and> (r < next_ref w \<longrightarrow> objects w' r = objects w r))
      \<and> (\<forall>r. slot c = None \<longrightarrow> slot c' = Some r \<longrightarrow>
           next_ref w \<le> r \<and> r < next_ref w' \<and> objects w' r = Some (kind (hook_handler c)))"
  using assms slot_kept_Some [OF assms(1)] slot_kept_None [OF assms(1)]
  by auto

lemma new_views_fresh:
  assumes "grows (c, w) (c', w')"
  shows "views c' - views c \<subseteq> {next_ref w..<next_ref w'}"
proof
  fix r assume r: "r \<in> views c' - views c"
  note sl = grows_slot [OF assms]
  from r consider "cached_stats c' = Some r" "cached_stats c \<noteq> Some r"
    | "cached_body c' = Some r" "cached_body c \<noteq> Some r"
    | "cached_duel c' = Some r" "cached_duel c \<noteq> Some r"
    | "cached_quest_position c' = Some r" "cached_quest_position c \<noteq> Some r"
    by (auto simp: views_def)
  then show "r \<in> {next_ref w..<next_ref w'}"
  proof cases
    case 1
    then have "cached_stats c = None"
      using slot_kept_Some [OF sl(1)] by (cases "cached_stats c") auto
    with 1 slot_kept_None [OF sl(1)] show ?thesis by auto
  next
    case 2
    then have "cached_body c = None"
      using slot_kept_Some [OF sl(2)] by (cases "cached_body c") auto
    with 2 slot_kept_None [OF sl(2)] show ?thesis by auto
  next
    case 3
    then have "cached_duel c = None"
      using slot_kept_Some [OF sl(3)] by (cases "cached_duel c") auto
    with 3 slot_kept_None [OF sl(3)] show ?thesis by auto
  next
    case 4
    then have "cached_quest_position c = None"
      using slot_kept_Some [OF sl(4)] by (cases "cached_quest_position c") auto
    with 4 slot_kept_None [OF sl(4)] show ?thesis by auto
  qed
qed

text \<open>
  C8. Take a client as \<^verbatim>\<open>__init__\<close> builds it, any method calls on it that come back, and any
  further method calls that come back.
  \<^item> The process id is stored by \<^verbatim>\<open>__init__\<close> and is the same after both runs; reading it
    again returns it and changes nothing; over the whole life of the client
    \<^verbatim>\<open>get_pid_from_handle\<close> is called once, by \<^verbatim>\<open>__init__\<close>.
  \<^item> \<^verbatim>\<open>__init__\<close> creates no view. Each of \<^verbatim>\<open>stats\<close>, \<^verbatim>\<open>body\<close>, \<^verbatim>\<open>duel\<close>, \<^verbatim>\<open>quest_position\<close>, on
    its first access, constructs a new object on the client's own hook handler and stores
    it; once stored it is returned by every access, unchanged by every method call, and
    the object stays what it was.
  \<^item> Every view of the client is an object that exists, and a view the client creates
    is a new object: it is no view of any client whose views exist already.
\<close>

theorem cached_properties:
  assumes "init env hwnd w0 = (Inr c0, w1)"
    and "invoke_all env before (c0, w1) = Some (c, w)"
    and "invoke_all env ms (c, w) = Some (c', w')"
  shows "(\<exists>p. cached_process_id c0 = Some p \<and> cached_process_id c = Some p
              \<and> cached_process_id c' = Some p
              \<and> process_id env (c', w') = (Inr p, c', w')
              \<and> filter is_get_pid (issued w0 w') = [GetPidFromHandle hwnd])
       \<and> views c0 = {}
       \<and> (\<forall>(acc, slot, store, kind) \<in> set accessors.
            (slot c = None \<longrightarrow>
               acc (c, w) = (Inr (next_ref w), store (next_ref w) c,
                 w\<lparr>next_ref := Suc (next_ref w),
                   objects := (objects w)(next_ref w := Some (kind (hook_handler c)))\<rparr>))
          \<and> (\<forall>r. slot c = Some r \<longrightarrow>
               acc (c, w) = (Inr r, c, w) \<and> slot c' = Some r \<and> acc (c', w') = (Inr r, c', w')
               \<and> (r < next_ref w \<longrightarrow> objects w' r = objects w r))
          \<and> (\<forall>r. slot c = None \<longrightarrow> slot c' = Some r \<longrightarrow>
               next_ref w \<le> r \<and> r < next_ref w' \<and> objects w' r = Some (kind (hook_handler c))))
       \<and> views c \<subseteq> {..<next_ref w}
       \<and> (\<forall>c2. views c2 \<subseteq> {..<next_ref w} \<longrightarrow> (views c' - views c) \<inter> views c2 = {})"
proof -
  from init_result [OF assms(1)] obtain p where
    p: "cached_process_id c0 = Some p"
    and tr1: "trace w1 = trace w0 @ [GetPidFromHandle hwnd, OpenProcessFromId (next_ref w0) p]"
    and v0: "cached_stats c0 = None" "cached_body c0 = None"
            "cached_duel c0 = None" "cached_quest_position c0 = None"
    by blast
  have g1: "grows (c0, w1) (c, w)"
    using assms(2) by (rule invoke_all_grows)
  have g2: "grows (c, w) (c', w')"
    using assms(3) by (rule invoke_all_grows)
  have pc: "cached_process_id c = Some p" and n1: "filter is_get_pid (issued w1 w) = []"
    using grows_pid [OF g1 p] by simp_all
  have pc': "cached_process_id c' = Some p" and n2: "filter is_get_pid (issued w w') = []"
    using grows_pid [OF g2 pc] by simp_all
  have "trace w' = trace w0 @ [GetPidFromHandle hwnd, OpenProcessFromId (next_ref w0) p]
                     @ issued w1 w @ issued w w'"
    using grows_trace [OF g1] grows_trace [OF g2] tr1 by simp
  then have "issued w0 w' = [GetPidFromHandle hwnd, OpenProcessFromId (next_ref w0) p]
                     @ issued w1 w @ issued w w'"
    by (rule issued_eq)
  then have once: "filter is_get_pid (issued w0 w') = [GetPidFromHandle hwnd]"
    using n1 n2 by simp
  have again: "process_id env (c', w') = (Inr p, c', w')"
    using pc' by (simp add: process_id_def cached_property_def)
  have pid: "\<exists>p. cached_process_id c0 = Some p \<and> cached_process_id c = Some p
              \<and> cached_process_id c' = Some p
              \<and> process_id env (c', w') = (Inr p, c', w')
              \<and> filter is_get_pid (issued w0 w') = [GetPidFromHandle hwnd]"
    using p pc pc' again once by blast
  have lazy: "views c0 = {}"
    using v0 by (simp add: views_def)
  note sl = grows_slot [OF g2]
  note ob = grows_objects [OF g2]
  have acc: "\<forall>(acc, slot, store, kind) \<in> set accessors.
            (slot c = None \<longrightarrow>
               acc (c, w) = (Inr (next_ref w), store (next_ref w) c,
                 w\<lparr>next_ref := Suc (next_ref w),
                   objects := (objects w)(next_ref w := Some (kind (hook_handler c)))\<rparr>))
          \<and> (\<forall>r. slot c = Some r \<longrightarrow>
               acc (c, w) = (Inr r, c, w) \<and> slot c' = Some r \<and> acc (c', w') = (Inr r, c', w')
               \<and> (r < next_ref w \<longrightarrow> objects w' r = objects w r))
          \<and> (\<forall>r. slot c = None \<longrightarrow> slot c' = Some r \<longrightarrow>
               next_ref w \<le> r \<and> r < next_ref w' \<and> objects w' r = Some (kind (hook_handler c)))"
    unfolding accessors_def
    using accessor_one [OF sl(1) accessor_first(1) accessor_again(1) ob]
          accessor_one [OF sl(2) accessor_first(2) accessor_again(2) ob]
          accessor_one [OF sl(3) accessor_first(3) accessor_again(3) ob]
          accessor_one [OF sl(4) accessor_first(4) accessor_again(4) ob]
    by simp
  have "views c - views c0 \<subseteq> {next_ref w1..<next_ref w}"
    using g1 by (rule new_views_fresh)
  then have old: "views c \<subseteq> {..<next_ref w}"
    using lazy by auto
  have "views c' - views c \<subseteq> {next_ref w..<next_ref w'}"
    using g2 by (rule new_views_fresh)
  then have share: "\<forall>c2. views c2 \<subseteq> {..<next_ref w} \<longrightarrow> (views c' - views c) \<inter> views c2 = {}"
    by fastforce
  from pid lazy acc old share show ?thesis by blast
qed

theorem cached_properties_witness:
  "init env_ok 7 world0 = (Inr client1, world1)
   \<and> invoke_all env_ok [Stats] (client1, world1) =
       Some (client1\<lparr>cached_stats := Some 2\<rparr>,
             world1\<lparr>next_ref := 3, objects := (objects world1)(2 := Some (PlayerStats 1))\<rparr>)
   \<and> invoke_all env_ok [ProcessId, Stats, Body]
         (client1\<lparr>cached_stats := Some 2\<rparr>,
          world1\<lparr>next_ref := 3, objects := (objects world1)(2 := Some (PlayerStats 1))\<rparr>) =
       Some (client1\<lparr>cached_stats := Some 2, cached_body := Some 3\<rparr>,
             world1\<lparr>next_ref := 4,
               objects := (objects world1)(2 := Some (PlayerStats 1), 3 := Some (PlayerActorBody 1))\<rparr>)
   \<and> filter is_get_pid (issued world0
         (world1\<lparr>next_ref := 4,
            objects := (objects world1)(2 := Some (PlayerStats 1), 3 := Some (PlayerActorBody 1))\<rparr>))
       = [GetPidFromHandle 7]
   \<and> views client1 = {}"
proof -
  have h1: "init env_ok 7 world0 = (Inr client1, world1)"
    by (simp add: init_def new_def world0_def env_ok_def bind_def process_id_def
          cached_property_def call_def client1_def world1_def)
  have h2: "invoke_all env_ok [Stats] (client1, world1) =
       Some (client1\<lparr>cached_stats := Some 2\<rparr>,
             world1\<lparr>next_ref := 3, objects := (objects world1)(2 := Some (PlayerStats 1))\<rparr>)"
    by (simp add: discard_def stats_def cached_property_def construct_def new_def
          client1_def world1_def)
  have h3: "invoke_all env_ok [ProcessId, Stats, Body]
         (client1\<lparr>cached_stats := Some 2\<rparr>,
          world1\<lparr>next_ref := 3, objects := (objects world1)(2 := Some (PlayerStats 1))\<rparr>) =
       Some (client1\<lparr>cached_stats := Some 2, cached_body := Some 3\<rparr>,
             world1\<lparr>next_ref := 4,
               objects := (objects world1)(2 := Some (PlayerStats 1), 3 := Some (PlayerActorBody 1))\<rparr>)"
    by (simp add: discard_def process_id_def stats_def body_def cached_property_def construct_def
          new_def client1_def world1_def)
  from cached_properties [OF h1 h2 h3]
  have "filter is_get_pid (issued world0
         (world1\<lparr>next_ref := 4,
            objects := (objects world1)(2 := Some (PlayerStats 1), 3 := Some (PlayerActorBody 1))\<rparr>))
       = [GetPidFromHandle 7]"
    and "views client1 = {}"
    by blast+
  with h1 h2 h3 show ?thesis by blast
qed

end
